theory Spec2Isabelle
  imports Complex_Main
begin

section \<open>The generative-regressor workflow of rampwf\<close>

text \<open>
  The development embeds \<^verbatim>\<open>GenerativeRegressorFull.predict_submission\<close> and
  \<^verbatim>\<open>GenerativeRegressorFull.step\<close> of
  \<^verbatim>\<open>rampwf/workflows/generative_regressor_full.py\<close>.

  Conventions of the embedding.
  \<^item> A two-dimensional numpy array is a record of its column count and its rows; the
    column count is kept apart because \<^verbatim>\<open>shape[1]\<close> is defined for an array
    without rows.
  \<^item> A float is an exact real, or one of the three special values of IEEE arithmetic:
    the two infinities and NaN. An operation on finite values overflows to an infinity
    when its exact result reaches \<open>float_overflow\<close>, the least magnitude that
    round-to-nearest takes beyond the largest double; the special values propagate as
    IEEE 754 prescribes. Rounding and underflow are not modelled, and zero carries no
    sign.
  \<^item> The arrays handed in by the regressor and the data frame hold finite reals.
  \<^item> A cell of \<^verbatim>\<open>np.empty\<close> that was never written is \<open>None\<close>.
  \<^item> Every Python exception is a value of \<open>error\<close>.
  \<^item> The workflow is configured with \<^verbatim>\<open>restart_name=None\<close>, the default of the
    constructor: \<^verbatim>\<open>_check_restart\<close> then returns its argument and no restart
    array, and the regressor is called with the features only.
\<close>

subsection \<open>Errors, floats and arrays\<close>

datatype error =
  AssertionError | ZeroDivisionError | KeyError | IndexError | ValueError | UnboundLocalError

definition bindE :: "error + 'a \<Rightarrow> ('a \<Rightarrow> error + 'b) \<Rightarrow> error + 'b" where
  "bindE m f = (case m of Inl e \<Rightarrow> Inl e | Inr v \<Rightarrow> f v)"

definition check :: "bool \<Rightarrow> error \<Rightarrow> error + unit" where
  "check b e = (if b then Inr () else Inl e)"

datatype fl = Fin real | PInf | NInf | NaN

text \<open>The largest double is \<open>2\<^sup>1\<^sup>0\<^sup>2\<^sup>4 - 2\<^sup>9\<^sup>7\<^sup>1\<close>; a result of magnitude
  \<open>2\<^sup>1\<^sup>0\<^sup>2\<^sup>4 - 2\<^sup>9\<^sup>7\<^sup>0\<close> or more is rounded to an infinity.\<close>

definition float_overflow :: real where
  "float_overflow = 2 ^ 1024 - 2 ^ 970"

definition overflow :: "real \<Rightarrow> fl" where
  "overflow x = (if float_overflow \<le> x then PInf
                 else if x \<le> - float_overflow then NInf else Fin x)"

text \<open>The infinity of the sign of \<open>a\<close>; NaN for zero (\<open>0 * inf\<close> and \<open>0 / 0\<close>).\<close>

definition inf_signed :: "real \<Rightarrow> fl" where
  "inf_signed a = (if a = 0 then NaN else if 0 < a then PInf else NInf)"

fun fl_neg :: "fl \<Rightarrow> fl" where
  "fl_neg (Fin a) = Fin (- a)"
| "fl_neg PInf = NInf"
| "fl_neg NInf = PInf"
| "fl_neg NaN = NaN"

fun fl_add :: "fl \<Rightarrow> fl \<Rightarrow> fl" where
  "fl_add (Fin a) (Fin b) = overflow (a + b)"
| "fl_add NaN _ = NaN"
| "fl_add _ NaN = NaN"
| "fl_add PInf NInf = NaN"
| "fl_add NInf PInf = NaN"
| "fl_add PInf _ = PInf"
| "fl_add _ PInf = PInf"
| "fl_add NInf _ = NInf"
| "fl_add _ NInf = NInf"

definition fl_sub :: "fl \<Rightarrow> fl \<Rightarrow> fl" where
  "fl_sub a b = fl_add a (fl_neg b)"

fun fl_mul :: "fl \<Rightarrow> fl \<Rightarrow> fl" where
  "fl_mul (Fin a) (Fin b) = overflow (a * b)"
| "fl_mul NaN _ = NaN"
| "fl_mul _ NaN = NaN"
| "fl_mul (Fin a) PInf = inf_signed a"
| "fl_mul PInf (Fin a) = inf_signed a"
| "fl_mul (Fin a) NInf = inf_signed (- a)"
| "fl_mul NInf (Fin a) = inf_signed (- a)"
| "fl_mul PInf PInf = PInf"
| "fl_mul NInf NInf = PInf"
| "fl_mul PInf NInf = NInf"
| "fl_mul NInf PInf = NInf"

fun fl_exp :: "fl \<Rightarrow> fl" where
  "fl_exp (Fin a) = (if float_overflow \<le> exp a then PInf else Fin (exp a))"
| "fl_exp PInf = PInf"
| "fl_exp NInf = Fin 0"
| "fl_exp NaN = NaN"

text \<open>numpy division of floats: a zero divisor gives NaN or an infinity (with a
  warning), never an exception.\<close>

fun fl_div :: "fl \<Rightarrow> fl \<Rightarrow> fl" where
  "fl_div (Fin a) (Fin b) = (if b = 0 then inf_signed a else overflow (a / b))"
| "fl_div NaN _ = NaN"
| "fl_div _ NaN = NaN"
| "fl_div (Fin a) _ = Fin 0"
| "fl_div PInf (Fin b) = (if 0 \<le> b then PInf else NInf)"
| "fl_div NInf (Fin b) = (if 0 \<le> b then NInf else PInf)"
| "fl_div _ _ = NaN"

text \<open>A sum along an axis, accumulated from left to right, starting from 0. numpy adds
  eight or more entries of a contiguous axis in blocks; as rounding is not modelled,
  the order bears only on which partial sum overflows.\<close>

definition fl_sum :: "fl list \<Rightarrow> fl" where
  "fl_sum xs = foldl fl_add (Fin 0) xs"

record 'a ndarray =
  ncols :: nat
  rows :: "'a list list"

definition len :: "'a ndarray \<Rightarrow> nat" where
  "len a = length (rows a)"

definition map_array :: "('a \<Rightarrow> 'b) \<Rightarrow> 'a ndarray \<Rightarrow> 'b ndarray" where
  "map_array f a = \<lparr>ncols = ncols a, rows = map (map f) (rows a)\<rparr>"

text \<open>Broadcasting along the row axis: an array with a single row supplies that row
  for every row index.\<close>

definition brow :: "'a ndarray \<Rightarrow> nat \<Rightarrow> 'a list" where
  "brow a r = (if len a = 1 then rows a ! 0 else rows a ! r)"

text \<open>The number of indices selected by the slice \<^verbatim>\<open>start::stride\<close> on an axis of
  \<open>n\<close> entries, and the indices themselves.\<close>

definition slice_len :: "nat \<Rightarrow> nat \<Rightarrow> nat \<Rightarrow> nat" where
  "slice_len n start stride = (n - start + (stride - 1)) div stride"

definition slice_indices :: "nat \<Rightarrow> nat \<Rightarrow> nat \<Rightarrow> nat list" where
  "slice_indices n start stride = map (\<lambda>m. start + m * stride) [0..<slice_len n start stride]"

text \<open>\<^verbatim>\<open>a[:, start::stride]\<close> for a positive stride.\<close>

definition getitem_strided :: "'a ndarray \<Rightarrow> nat \<Rightarrow> nat \<Rightarrow> 'a ndarray" where
  "getitem_strided a start stride =
     \<lparr>ncols = slice_len (ncols a) start stride,
      rows = map (\<lambda>row. map (\<lambda>c. row ! c) (slice_indices (ncols a) start stride)) (rows a)\<rparr>"

text \<open>\<^verbatim>\<open>a[:, :stop]\<close> for a Python integer \<open>stop\<close>; a negative stop counts from
  the end.\<close>

definition getitem_upto :: "'a ndarray \<Rightarrow> int \<Rightarrow> 'a ndarray" where
  "getitem_upto a stop =
     (let n = (if stop < 0 then nat (int (ncols a) + stop) else min (nat stop) (ncols a))
      in \<lparr>ncols = n, rows = map (take n) (rows a)\<rparr>)"

text \<open>Writing the values \<open>vs\<close> to the positions \<open>start\<close>, \<open>start + stride\<close>, ... of a
  row.\<close>

fun put_strided :: "nat \<Rightarrow> nat \<Rightarrow> 'a list \<Rightarrow> 'a option list \<Rightarrow> 'a option list" where
  "put_strided start stride [] dst = dst"
| "put_strided start stride (v # vs) dst =
     put_strided (start + stride) stride vs (dst[start := Some v])"

text \<open>\<^verbatim>\<open>result[:, start::stride] = src\<close>. The shapes must agree up to
  broadcasting: on each axis the source has the extent of the target or extent one;
  numpy raises a ValueError otherwise and writes nothing.\<close>

definition setitem_strided ::
  "'a option ndarray \<Rightarrow> nat \<Rightarrow> nat \<Rightarrow> 'a ndarray \<Rightarrow> error + 'a option ndarray" where
  "setitem_strided result start stride src =
     (let n = slice_len (ncols result) start stride in
      if (len src = len result \<or> len src = 1) \<and> (ncols src = n \<or> ncols src = 1)
      then Inr \<lparr>ncols = ncols result,
                rows = map (\<lambda>r.
                  let srow = brow src r;
                      vs = (if ncols src = n then srow else replicate n (srow ! 0))
                  in put_strided start stride vs (rows result ! r)) [0..<len result]\<rparr>
      else Inl ValueError)"

text \<open>The three loops of the packing step have one shape:
  \<^verbatim>\<open>for i in range(offset, count + offset): result[:, i::step] = src[:, i-offset::stride]\<close>.
  The list argument is the range.\<close>

fun assign_loop ::
  "nat list \<Rightarrow> nat \<Rightarrow> nat \<Rightarrow> nat \<Rightarrow> 'a ndarray \<Rightarrow> 'a option ndarray \<Rightarrow> error + 'a option ndarray" where
  "assign_loop [] offset step stride src result = Inr result"
| "assign_loop (i # is) offset step stride src result =
     bindE (setitem_strided result i step (getitem_strided src (i - offset) stride))
       (assign_loop is offset step stride src)"


subsection \<open>Data frames and the input of the workflow\<close>

text \<open>A pandas data frame: the length of its index and its columns in order, each with
  its label. \<^verbatim>\<open>X_array\<close> is a numpy array or a data frame; the test
  \<^verbatim>\<open>type(X_array).__module__ != np.__name__\<close> tells them apart.\<close>

record dataframe =
  df_len :: nat
  df_columns :: "(string \<times> real list) list"

datatype xarray = NdArray "real ndarray" | DataFrame dataframe

definition shape0 :: "xarray \<Rightarrow> nat" where
  "shape0 X = (case X of NdArray a \<Rightarrow> len a | DataFrame df \<Rightarrow> df_len df)"

definition shape1 :: "xarray \<Rightarrow> nat" where
  "shape1 X = (case X of NdArray a \<Rightarrow> ncols a | DataFrame df \<Rightarrow> length (df_columns df))"

definition df_values :: "dataframe \<Rightarrow> real ndarray" where
  "df_values df =
     \<lparr>ncols = length (df_columns df),
      rows = map (\<lambda>r. map (\<lambda>c. snd c ! r) (df_columns df)) [0..<df_len df]\<rparr>"

text \<open>\<^verbatim>\<open>df[labels]\<close> for a list of labels: a KeyError when a label names no
  column, else the columns carrying each label, in the order of the list.\<close>

definition df_getitem :: "dataframe \<Rightarrow> string list \<Rightarrow> error + dataframe" where
  "df_getitem df labels =
     (if list_all (\<lambda>l. l \<in> set (map fst (df_columns df))) labels
      then Inr \<lparr>df_len = df_len df,
                df_columns = concat (map (\<lambda>l. filter (\<lambda>c. fst c = l) (df_columns df)) labels)\<rparr>
      else Inl KeyError)"

text \<open>\<^verbatim>\<open>df.drop(columns=labels)\<close>, used only after \<open>df_getitem\<close> has found every
  label.\<close>

definition df_drop :: "dataframe \<Rightarrow> string list \<Rightarrow> dataframe" where
  "df_drop df labels =
     \<lparr>df_len = df_len df, df_columns = filter (\<lambda>c. fst c \<notin> set labels) (df_columns df)\<rparr>"

definition hstack :: "'a ndarray \<Rightarrow> 'a ndarray \<Rightarrow> 'a ndarray" where
  "hstack a b = \<lparr>ncols = ncols a + ncols b, rows = map2 (@) (rows a) (rows b)\<rparr>"

text \<open>\<^verbatim>\<open>types.any()\<close>: some entry is not zero.\<close>

definition ndarray_any :: "real ndarray \<Rightarrow> bool" where
  "ndarray_any a = list_ex (list_ex (\<lambda>x. x \<noteq> 0)) (rows a)"

subsection \<open>The Gaussian log-density\<close>

text \<open>\<^verbatim>\<open>scipy.stats.norm.logpdf(x, loc, scale)\<close> is a library function. It
  standardises its argument, \<open>z = (x - loc) / scale\<close>. For a scale that is not positive
  it returns NaN and raises nothing. For a positive scale and a finite \<open>z\<close> it returns
  \<open>- z\<^sup>2 / 2 - ln (sqrt (2 pi)) - ln scale\<close>, which is \<open>-inf\<close> when the square
  overflows; an infinite \<open>z\<close> is outside the open support and gets the fill value
  \<open>-inf\<close>.\<close>

definition norm_logpdf :: "real \<Rightarrow> real \<Rightarrow> real \<Rightarrow> fl" where
  "norm_logpdf x loc scale =
     (if 0 < scale
      then (case fl_div (fl_sub (Fin x) (Fin loc)) (Fin scale) of
              Fin z \<Rightarrow>
                fl_sub (fl_sub (fl_div (fl_neg (fl_mul (Fin z) (Fin z))) (Fin 2))
                               (Fin (ln (sqrt (2 * pi)))))
                       (Fin (ln scale))
            | NaN \<Rightarrow> NaN
            | _ \<Rightarrow> NInf)
      else NaN)"

subsection \<open>Reconstruction of the weights (lines 150 to 176)\<close>

text \<open>The arrays \<^verbatim>\<open>l_probs\<close>, \<^verbatim>\<open>p_excluded\<close>, \<^verbatim>\<open>diffs\<close> and
  \<^verbatim>\<open>final_w\<close> have shape (rows, components, targets). The computation is the same
  for every row, so each is given for one row, as a list over the components \<open>j\<close> of
  the list over the targets \<open>i\<close>.\<close>

definition l_probs_row :: "nat \<Rightarrow> nat \<Rightarrow> real list \<Rightarrow> real list \<Rightarrow> real list \<Rightarrow> fl list list" where
  "l_probs_row nb_dists_per_dim n_targets y mus sigmas =
     map (\<lambda>j. map (\<lambda>i. norm_logpdf (y ! i) (mus ! i) (sigmas ! i)) [0..<n_targets])
       [0..<nb_dists_per_dim]"

text \<open>The mask of target \<open>i\<close> keeps the targets before \<open>i\<close>.\<close>

definition p_excluded_row :: "nat \<Rightarrow> fl list list \<Rightarrow> fl list list" where
  "p_excluded_row n_targets l_probs =
     map (\<lambda>lp. map (\<lambda>i. fl_sum (take i lp)) [0..<n_targets]) l_probs"

definition diffs_row :: "nat \<Rightarrow> nat \<Rightarrow> real list \<Rightarrow> fl list list \<Rightarrow> fl list list" where
  "diffs_row nb_dists_per_dim n_targets weights_s p_excluded =
     map (\<lambda>i. map (\<lambda>d. fl_sum (map (\<lambda>j.
            fl_mul (Fin (weights_s ! j))
              (fl_exp (fl_sub (p_excluded ! i ! d) (p_excluded ! j ! d))))
            [0..<nb_dists_per_dim])) [0..<n_targets]) [0..<nb_dists_per_dim]"

definition final_w_row :: "nat \<Rightarrow> nat \<Rightarrow> real list \<Rightarrow> fl list list \<Rightarrow> fl list list" where
  "final_w_row nb_dists_per_dim n_targets weights_s diffs_v =
     map (\<lambda>i. map (\<lambda>d. fl_div (Fin (weights_s ! i)) (diffs_v ! i ! d)) [0..<n_targets])
       [0..<nb_dists_per_dim]"

text \<open>\<^verbatim>\<open>final_w.reshape(len(types), -1, order='F')\<close>: in Fortran order the entry
  (component \<open>j\<close>, target \<open>d\<close>) of a row lands in column \<open>j + k * d\<close>.\<close>

definition reshape_F_row :: "nat \<Rightarrow> nat \<Rightarrow> 'a list list \<Rightarrow> 'a list" where
  "reshape_F_row nb_dists_per_dim n_targets final_w =
     map (\<lambda>c. final_w ! (c mod nb_dists_per_dim) ! (c div nb_dists_per_dim))
       [0..<nb_dists_per_dim * n_targets]"

definition norm_w_row :: "nat \<Rightarrow> nat \<Rightarrow> real list \<Rightarrow> real list \<Rightarrow> real list \<Rightarrow> real list \<Rightarrow> fl list" where
  "norm_w_row nb_dists_per_dim n_targets y mus sigmas weights_s =
     (let l_probs = l_probs_row nb_dists_per_dim n_targets y mus sigmas;
          p_excluded = p_excluded_row n_targets l_probs;
          diffs_v = diffs_row nb_dists_per_dim n_targets weights_s p_excluded;
          final_w = final_w_row nb_dists_per_dim n_targets weights_s diffs_v
      in reshape_F_row nb_dists_per_dim n_targets final_w)"

text \<open>The loop that fills \<^verbatim>\<open>l_probs\<close> reads column \<open>i\<close> of \<^verbatim>\<open>y\<close>,
  \<^verbatim>\<open>mus\<close> and \<^verbatim>\<open>sigmas\<close> (an IndexError when one of them has no such column),
  broadcasts the three columns against each other and assigns the result to a column
  of \<^verbatim>\<open>l_probs\<close>, which has one entry per row of \<^verbatim>\<open>types\<close> (a ValueError when
  the row counts do not fit).\<close>

fun l_probs_check ::
  "nat list \<Rightarrow> real ndarray \<Rightarrow> real ndarray \<Rightarrow> real ndarray \<Rightarrow> nat \<Rightarrow> error + unit" where
  "l_probs_check [] y mus sigmas n = Inr ()"
| "l_probs_check (i # is) y mus sigmas n =
     (if \<not> (i < ncols y \<and> i < ncols mus \<and> i < ncols sigmas) then Inl IndexError
      else if \<not> ((len y = len mus \<or> len y = 1 \<or> len mus = 1) \<and>
                  (let m = (if len y = 1 then len mus else len y) in m = n \<or> m = 1))
      then Inl ValueError
      else l_probs_check is y mus sigmas n)"

text \<open>Lines 150 to 176. The name \<^verbatim>\<open>y\<close> is read first; it is bound only on the
  data-frame path. The shapes are then checked where the code meets them: in the loop
  that fills \<^verbatim>\<open>l_probs\<close> (not entered when there is no component); in lines 169
  and 170, where \<^verbatim>\<open>weights_s[:, j:j+1]\<close> must have a column for every component
  and the row count of the weights must fit the assignment to \<^verbatim>\<open>diffs\<close> (with no
  component, only the division of line 172 broadcasts the two row counts); and in the
  reshape of line 174, which cannot infer the extent \<^verbatim>\<open>-1\<close> of an array without
  rows. The result has one row per row of \<^verbatim>\<open>types\<close>.\<close>

definition normalize_weights ::
  "nat \<Rightarrow> nat \<Rightarrow> dataframe option \<Rightarrow> real ndarray \<Rightarrow> real ndarray \<Rightarrow> real ndarray
     \<Rightarrow> error + fl ndarray" where
  "normalize_weights n_targets nb_dists_per_dim y weights types params =
     (let mus = getitem_strided params 0 2;
          sigmas = getitem_strided params 1 2
      in case y of
           None \<Rightarrow> Inl UnboundLocalError
         | Some ydf \<Rightarrow>
             (let yv = df_values ydf;
                  n = len types;
                  weights_s = getitem_upto weights (int nb_dists_per_dim)
              in
              bindE (if nb_dists_per_dim = 0 then Inr ()
                     else l_probs_check [0..<n_targets] yv mus sigmas n) (\<lambda>_.
              bindE (check
                      (if nb_dists_per_dim = 0
                       then len weights_s = n \<or> len weights_s = 1 \<or> n = 1
                       else ncols weights_s = nb_dists_per_dim \<and>
                            (len weights_s = n \<or> len weights_s = 1)) ValueError) (\<lambda>_.
              bindE (check (n \<noteq> 0) ValueError) (\<lambda>_.
              Inr \<lparr>ncols = nb_dists_per_dim * n_targets,
                   rows = map (\<lambda>r. norm_w_row nb_dists_per_dim n_targets
                                 (brow yv r) (brow mus r) (brow sigmas r) (brow weights_s r))
                            [0..<n]\<rparr>)))))"

subsection \<open>Packing the record (lines 179 to 202)\<close>

definition pack_record ::
  "nat \<Rightarrow> nat \<Rightarrow> nat \<Rightarrow> fl ndarray \<Rightarrow> real ndarray \<Rightarrow> real ndarray \<Rightarrow> error + fl option ndarray" where
  "pack_record n_targets nb_dists_curr nb_dists_per_dim weights types params =
     (let sizes = \<lparr>ncols = n_targets,
                   rows = replicate (len types)
                            (replicate n_targets (Fin (real nb_dists_per_dim)))\<rparr>;
          size_concatenated = ncols weights + nb_dists_curr + ncols params;
          step = (size_concatenated + n_targets) div n_targets;
          result = \<lparr>ncols = n_targets + size_concatenated,
                    rows = replicate (len types)
                             (replicate (n_targets + size_concatenated) None)\<rparr>;
          offset1 = 1;
          offset2 = offset1 + nb_dists_per_dim;
          offset3 = offset2 + nb_dists_per_dim;
          params_per_dim = ncols params div n_targets
      in
      bindE (setitem_strided result 0 step sizes) (\<lambda>result.
      bindE (assign_loop [offset1..<nb_dists_per_dim + offset1] offset1 step
               nb_dists_per_dim weights result) (\<lambda>result.
      bindE (assign_loop [offset2..<nb_dists_per_dim + offset2] offset2 step
               nb_dists_per_dim (map_array Fin types) result) (\<lambda>result.
      assign_loop [offset3..<params_per_dim + offset3] offset3 step
        params_per_dim (map_array Fin params) result))))"

subsection \<open>predict_submission\<close>

record workflow =
  target_column_name :: "string list"
  max_dists :: nat

type_synonym dists = "real ndarray \<times> real ndarray \<times> real ndarray"

text \<open>Lines 118 to 134: the features handed to the regressor and, for a data frame
  only, the frame \<^verbatim>\<open>y\<close> of the truth columns. For a numpy array the name
  \<^verbatim>\<open>y\<close> stays unbound, which is \<open>None\<close> here.\<close>

definition extract_truth :: "workflow \<Rightarrow> xarray \<Rightarrow> error + real ndarray \<times> dataframe option" where
  "extract_truth self X_array =
     (let n_columns = shape1 X_array;
          n_targets = length (target_column_name self);
          truths = map (\<lambda>t. ''y_'' @ t) (target_column_name self)
      in
      bindE (case X_array of
               NdArray a \<Rightarrow> Inr (a, None)
             | DataFrame df \<Rightarrow>
                 bindE (df_getitem df truths) (\<lambda>y.
                   Inr (hstack (df_values (df_drop df truths)) (df_values y), Some y)))
        (\<lambda>(X_arr, y). Inr (getitem_upto X_arr (int n_columns - int n_targets), y)))"

text \<open>Lines 147 to 176: the weights that go into the record.\<close>

definition final_weights ::
  "nat \<Rightarrow> nat \<Rightarrow> dataframe option \<Rightarrow> real ndarray \<Rightarrow> real ndarray \<Rightarrow> real ndarray
     \<Rightarrow> error + fl ndarray" where
  "final_weights n_targets nb_dists_per_dim y weights types params =
     (if \<not> ndarray_any types
      then normalize_weights n_targets nb_dists_per_dim y weights types params
      else Inr (map_array Fin weights))"

definition predict_submission ::
  "workflow \<Rightarrow> (xarray \<Rightarrow> dists) \<Rightarrow> xarray \<Rightarrow> error + fl option ndarray" where
  "predict_submission self regressors X_array =
     (let n_targets = length (target_column_name self) in
      bindE (extract_truth self X_array) (\<lambda>(X, y).
      let (weights, types, params) = regressors (NdArray X);
          nb_dists_curr = ncols types
      in
      bindE (check (nb_dists_curr \<le> max_dists self) AssertionError) (\<lambda>_.
      bindE (check (n_targets \<noteq> 0) ZeroDivisionError) (\<lambda>_.
      let nb_dists_per_dim = nb_dists_curr div n_targets in
      bindE (final_weights n_targets nb_dists_per_dim y weights types params) (\<lambda>weights.
      pack_record n_targets nb_dists_curr nb_dists_per_dim weights types params)))))"

subsection \<open>step\<close>

text \<open>The random-number source. A numpy \<^verbatim>\<open>RandomState\<close> is a mutable object; the
  model has its state \<open>'g\<close>, the generator that a seed constructs, and the two draws
  as functions of the state, each returning the state it leaves behind. Nothing is
  assumed of the draws themselves.\<close>

record 'g rng =
  seeded :: "nat \<Rightarrow> 'g"
  draw_choice :: "'g \<Rightarrow> nat \<Rightarrow> real list \<Rightarrow> nat \<times> 'g"
  draw_multivariate_normal :: "'g \<Rightarrow> real list \<Rightarrow> real list list \<Rightarrow> real list \<times> 'g"

text \<open>The argument \<^verbatim>\<open>random_state\<close> of \<^verbatim>\<open>step\<close>: \<^verbatim>\<open>None\<close> (the default), an
  integer, a \<^verbatim>\<open>RandomState\<close> instance, or anything else.\<close>

datatype 'g random_state = RS_None | RS_Int int | RS_RandomState 'g | RS_Other

text \<open>\<^verbatim>\<open>sklearn.utils.validation.check_random_state\<close> is a library function. For
  \<^verbatim>\<open>None\<close> it returns the global generator of numpy, the one behind
  \<^verbatim>\<open>np.random.seed\<close>, whose state is an input of the model; for an integer, a new
  generator seeded with it (numpy accepts the seeds from 0 to \<open>2\<^sup>3\<^sup>2 - 1\<close> and raises a
  ValueError for any other); an instance is returned as it is; anything else is a
  ValueError.\<close>

definition check_random_state :: "'g rng \<Rightarrow> 'g \<Rightarrow> 'g random_state \<Rightarrow> error + 'g" where
  "check_random_state ops global_state seed =
     (case seed of
        RS_None \<Rightarrow> Inr global_state
      | RS_Int s \<Rightarrow> if 0 \<le> s \<and> s < 2 ^ 32 then Inr (seeded ops (nat s)) else Inl ValueError
      | RS_RandomState g \<Rightarrow> Inr g
      | RS_Other \<Rightarrow> Inl ValueError)"

text \<open>\<^verbatim>\<open>rng.choice(a, p=p)\<close> validates its arguments before it draws: the
  population is not empty, \<open>p\<close> has one entry per index, no entry is negative, and the
  entries sum to one up to the square root of the machine epsilon, \<open>2\<^sup>-\<^sup>2\<^sup>6\<close>. It raises
  a ValueError otherwise.\<close>

definition rng_choice :: "'g rng \<Rightarrow> 'g \<Rightarrow> nat \<Rightarrow> real list \<Rightarrow> error + nat \<times> 'g" where
  "rng_choice ops g a p =
     (if a = 0 \<or> length p \<noteq> a \<or> list_ex (\<lambda>x. x < 0) p \<or> \<bar>sum_list p - 1\<bar> > 1 / 2 ^ 26
      then Inl ValueError
      else Inr (draw_choice ops g a p))"

text \<open>\<^verbatim>\<open>weights.reshape(n_targets, -1)[0]\<close>: the first row of the reshaped array
  is an initial segment of the entries in row-major order. The reshape raises a
  ValueError when the known extent is zero or does not divide the size.\<close>

definition reshape_row0 :: "real ndarray \<Rightarrow> nat \<Rightarrow> error + real list" where
  "reshape_row0 a n_targets =
     (let size = len a * ncols a in
      if n_targets = 0 \<or> size mod n_targets \<noteq> 0 then Inl ValueError
      else Inr (take (size div n_targets) (concat (rows a))))"

text \<open>\<^verbatim>\<open>a.reshape(n_samples, n_targets, -1)\<close>: the extent of the last axis and the
  entries in row-major order.\<close>

definition reshape3 :: "real ndarray \<Rightarrow> nat \<Rightarrow> nat \<Rightarrow> error + nat \<times> real list" where
  "reshape3 a n_samples n_targets =
     (let size = len a * ncols a in
      if n_samples * n_targets = 0 \<or> size mod (n_samples * n_targets) \<noteq> 0 then Inl ValueError
      else Inr (size div (n_samples * n_targets), concat (rows a)))"

text \<open>\<^verbatim>\<open>all_mus[0, :, selected_component]\<close> on the reshaped array, whose first axis
  is not empty.\<close>

definition getitem_component :: "nat \<times> real list \<Rightarrow> nat \<Rightarrow> nat \<Rightarrow> error + real list" where
  "getitem_component arr n_targets selected =
     (case arr of (n_components, flat) \<Rightarrow>
        if selected < n_components
        then Inr (map (\<lambda>d. flat ! (d * n_components + selected)) [0..<n_targets])
        else Inl IndexError)"

text \<open>\<^verbatim>\<open>np.diag(v)\<close> for a vector \<open>v\<close>.\<close>

definition diag :: "real list \<Rightarrow> real list list" where
  "diag v = map (\<lambda>i. map (\<lambda>j. if i = j then v ! i else 0) [0..<length v]) [0..<length v]"

text \<open>Lines 229 to 261. The generator is fixed first, before the regressor is called.
  The call returns the sampled row, the state in which it leaves the generator it drew
  from, and the state of the global generator of numpy after the call: the draws
  advance the global generator when \<^verbatim>\<open>random_state\<close> is \<^verbatim>\<open>None\<close>, and leave it
  alone otherwise.\<close>

definition step ::
  "workflow \<Rightarrow> (xarray \<Rightarrow> dists) \<Rightarrow> 'g rng \<Rightarrow> xarray \<Rightarrow> 'g random_state \<Rightarrow> 'g
     \<Rightarrow> error + real ndarray \<times> 'g \<times> 'g" where
  "step self reg ops X_array random_state global_state =
     bindE (check_random_state ops global_state random_state) (\<lambda>rng.
     let n_samples = shape0 X_array;
         n_targets = length (target_column_name self);
         (weights, types, params) = reg X_array
     in
     bindE (reshape_row0 weights n_targets) (\<lambda>w_components.
     bindE (reshape3 (getitem_strided params 0 2) n_samples n_targets) (\<lambda>all_mus.
     bindE (reshape3 (getitem_strided params 1 2) n_samples n_targets) (\<lambda>all_sigmas.
     let n_components = length w_components in
     bindE (rng_choice ops rng n_components w_components) (\<lambda>(selected_component, g1).
     bindE (getitem_component all_mus n_targets selected_component) (\<lambda>mus.
     bindE (getitem_component all_sigmas n_targets selected_component) (\<lambda>sigmas.
     let (y_sampled, g2) = draw_multivariate_normal ops g1 mus (diag (map (\<lambda>s. s\<^sup>2) sigmas))
     in Inr (\<lparr>ncols = length y_sampled, rows = [y_sampled]\<rparr>, g2,
             case random_state of RS_None \<Rightarrow> g2 | _ \<Rightarrow> global_state))))))))"

subsection \<open>Well-formed predictions\<close>

text \<open>Every row of an array has as many entries as the array has columns.\<close>

definition rectangular :: "'a ndarray \<Rightarrow> bool" where
  "rectangular a = list_all (\<lambda>row. length row = ncols a) (rows a)"


text \<open>A prediction for \<open>n\<close> samples, \<open>n_targets\<close> target dimensions and \<open>k\<close> components
  per dimension: one weight and one type code per component slot, and a mean and a
  standard deviation per slot.\<close>

definition well_formed :: "nat \<Rightarrow> nat \<Rightarrow> nat \<Rightarrow> dists \<Rightarrow> bool" where
  "well_formed n n_targets k ds =
     (case ds of (weights, types, params) \<Rightarrow>
        rectangular weights \<and> rectangular types \<and> rectangular params \<and>
        len weights = n \<and> len types = n \<and> len params = n \<and>
        ncols weights = k * n_targets \<and> ncols types = k * n_targets \<and>
        ncols params = 2 * k * n_targets)"

text \<open>The exclusion likelihood as the code computes it for target dimension \<open>d\<close> of one
  sample: the sum, in floating point, of the log-densities of the targets before \<open>d\<close>,
  each taken at the mean and the standard deviation in columns \<open>2 i\<close> and \<open>2 i + 1\<close>
  of the parameters. It is finite when no log-density and no partial sum overflows.\<close>

definition log_density_sum :: "real list \<Rightarrow> real list \<Rightarrow> nat \<Rightarrow> fl" where
  "log_density_sum y params d =
     fl_sum (map (\<lambda>i. norm_logpdf (y ! i) (params ! (2 * i)) (params ! (2 * i + 1))) [0..<d])"

text \<open>The closed form of the weight that the reconstruction writes for component \<open>c\<close> of
  dimension \<open>d\<close>, proved below: the exclusion likelihood is the same for every
  component, so that a finite one cancels in every ratio and leaves the weight divided
  by the floating-point sum of the \<open>k\<close> weights of the first dimension, and any other
  one turns every ratio, and the weight, into NaN.\<close>

definition written_weight :: "nat \<Rightarrow> real list \<Rightarrow> real list \<Rightarrow> real list \<Rightarrow> nat \<Rightarrow> nat \<Rightarrow> fl" where
  "written_weight k y params weights d c =
     (case log_density_sum y params d of
        Fin x \<Rightarrow> fl_div (Fin (weights ! c)) (fl_sum (map (\<lambda>j. overflow (weights ! j)) [0..<k]))
      | _ \<Rightarrow> NaN)"


subsection \<open>Example inputs\<close>

text \<open>A workflow with the two targets \<open>a\<close> and \<open>b\<close>, and one sample given as a data
  frame (with its truth columns) and as a numpy array.\<close>

definition ex_self :: workflow where
  "ex_self = \<lparr>target_column_name = [''a'', ''b''], max_dists = 4\<rparr>"

definition ex_frame :: xarray where
  "ex_frame = DataFrame \<lparr>df_len = 1, df_columns = [(''x'', [5]), (''y_a'', [0]), (''y_b'', [0])]\<rparr>"

definition ex_array :: xarray where
  "ex_array = NdArray \<lparr>ncols = 3, rows = [[5, 0, 0]]\<rparr>"

text \<open>A regressor with one component per target whose second component is not
  Gaussian, and an all-Gaussian one.\<close>

definition ex_mixed :: "xarray \<Rightarrow> dists" where
  "ex_mixed = (\<lambda>_. (\<lparr>ncols = 2, rows = [[1, 1]]\<rparr>, \<lparr>ncols = 2, rows = [[0, 1]]\<rparr>,
                     \<lparr>ncols = 4, rows = [[0, 1, 3, 2]]\<rparr>))"

definition ex_gauss :: "xarray \<Rightarrow> dists" where
  "ex_gauss = (\<lambda>_. (\<lparr>ncols = 2, rows = [[1, 1]]\<rparr>, \<lparr>ncols = 2, rows = [[0, 0]]\<rparr>,
                     \<lparr>ncols = 4, rows = [[0, 1, 3, 2]]\<rparr>))"

text \<open>An all-Gaussian regressor whose first standard deviation is zero.\<close>

definition ex_degenerate :: "xarray \<Rightarrow> dists" where
  "ex_degenerate = (\<lambda>_. (\<lparr>ncols = 2, rows = [[1, 1]]\<rparr>, \<lparr>ncols = 2, rows = [[0, 0]]\<rparr>,
                          \<lparr>ncols = 4, rows = [[0, 0, 3, 2]]\<rparr>))"

text \<open>An all-Gaussian regressor with two components per target. For the first target
  the components have the means 0 and 1; every standard deviation is 1 and every
  weight is one half.\<close>

definition ex_two :: "xarray \<Rightarrow> dists" where
  "ex_two = (\<lambda>_. (\<lparr>ncols = 4, rows = [[1/2, 1/2, 1/2, 1/2]]\<rparr>, \<lparr>ncols = 4, rows = [[0, 0, 0, 0]]\<rparr>,
                   \<lparr>ncols = 8, rows = [[0, 1, 1, 1, 0, 1, 0, 1]]\<rparr>))"






text \<open>The same targets with room for eight component slots, and three regressors whose
  slot counts break the shape contract: five slots for two targets (with ten
  parameters), one slot for two targets (with two parameters), and six all-Gaussian
  slots, more than \<open>ex_self\<close> allows.\<close>

definition ex_self8 :: workflow where
  "ex_self8 = \<lparr>target_column_name = [''a'', ''b''], max_dists = 8\<rparr>"

definition ex_five :: "xarray \<Rightarrow> dists" where
  "ex_five = (\<lambda>_. (\<lparr>ncols = 5, rows = [[1, 2, 3, 4, 5]]\<rparr>, \<lparr>ncols = 5, rows = [[1, 0, 0, 0, 0]]\<rparr>,
                    \<lparr>ncols = 10, rows = [[1, 2, 3, 4, 5, 6, 7, 8, 9, 10]]\<rparr>))"

definition ex_short :: "xarray \<Rightarrow> dists" where
  "ex_short = (\<lambda>_. (\<lparr>ncols = 1, rows = [[1]]\<rparr>, \<lparr>ncols = 1, rows = [[1]]\<rparr>,
                     \<lparr>ncols = 2, rows = [[7, 8]]\<rparr>))"

definition ex_wide :: "xarray \<Rightarrow> dists" where
  "ex_wide = (\<lambda>_. (\<lparr>ncols = 6, rows = [[1, 1, 1, 1, 1, 1]]\<rparr>,
                    \<lparr>ncols = 6, rows = [[0, 0, 0, 0, 0, 0]]\<rparr>,
                    \<lparr>ncols = 12, rows = [[0, 1, 0, 1, 0, 1, 0, 1, 0, 1, 0, 1]]\<rparr>))"

text \<open>For the sampling step: a workflow with the single target \<open>a\<close>, a batch of two
  samples, three regressors for that batch (one component of weight 1 per sample, two
  components of weight one half per sample, and one component of weight one half per
  sample, which is not a mixture), and a random-number source whose state counts
  its draws: a seed is the initial count, the index selected is the count modulo the
  number of indices, and the normal draw returns the mean.\<close>

definition ex_self1 :: workflow where
  "ex_self1 = \<lparr>target_column_name = [''a''], max_dists = 4\<rparr>"

definition ex_batch :: xarray where
  "ex_batch = NdArray \<lparr>ncols = 1, rows = [[5], [6]]\<rparr>"

definition ex_pair :: "xarray \<Rightarrow> dists" where
  "ex_pair = (\<lambda>_. (\<lparr>ncols = 1, rows = [[1], [1]]\<rparr>, \<lparr>ncols = 1, rows = [[0], [0]]\<rparr>,
                    \<lparr>ncols = 2, rows = [[0, 1], [5, 1]]\<rparr>))"


definition ex_halves :: "xarray \<Rightarrow> dists" where
  "ex_halves = (\<lambda>_. (\<lparr>ncols = 1, rows = [[1/2], [1/2]]\<rparr>, \<lparr>ncols = 1, rows = [[0], [0]]\<rparr>,
                      \<lparr>ncols = 2, rows = [[0, 1], [5, 1]]\<rparr>))"

definition ex_rng :: "nat rng" where
  "ex_rng = \<lparr>seeded = (\<lambda>s. s),
             draw_choice = (\<lambda>g a p. (g mod a, Suc g)),
             draw_multivariate_normal = (\<lambda>g mean cov. (mean, Suc g))\<rparr>"

subsection \<open>The conditional weight as the specification words it\<close>

text \<open>The specification gives the conditional weight of component \<open>c\<close> for dimension
  \<open>d\<close> as the marginal weight times the exponential of the exclusion likelihood,
  normalised over the components; the exclusion likelihood of \<open>c\<close> sums, over the
  dimensions before \<open>d\<close>, the Gaussian log-density of the realized target under the mean
  and standard deviation of component \<open>c\<close> for that dimension. These definitions follow
  those words for one sample, with the weights and parameters laid out as in the
  arrays of the regressor; they are not taken from the code.\<close>

definition spec_log_density :: "real \<Rightarrow> real \<Rightarrow> real \<Rightarrow> real" where
  "spec_log_density x mean std = - ln (std * sqrt (2 * pi)) - (x - mean)\<^sup>2 / (2 * std\<^sup>2)"

definition spec_exclusion :: "nat \<Rightarrow> real list \<Rightarrow> real list \<Rightarrow> nat \<Rightarrow> nat \<Rightarrow> real" where
  "spec_exclusion k params y c d =
     (\<Sum>i<d. spec_log_density (y ! i) (params ! (2 * (i * k + c))) (params ! (2 * (i * k + c) + 1)))"

definition spec_conditional_weight ::
  "nat \<Rightarrow> real list \<Rightarrow> real list \<Rightarrow> real list \<Rightarrow> nat \<Rightarrow> nat \<Rightarrow> real" where
  "spec_conditional_weight k weights params y c d =
     weights ! (d * k + c) * exp (spec_exclusion k params y c d) /
       (\<Sum>j<k. weights ! (d * k + j) * exp (spec_exclusion k params y j d))"

section \<open>Properties of the array operations\<close>

lemma bindE_Inr [simp]: "bindE (Inr v) f = f v"
  by (simp add: bindE_def)

lemma bindE_Inl [simp]: "bindE (Inl e) f = Inl e"
  by (simp add: bindE_def)

lemma check_True [simp]: "b \<Longrightarrow> check b e = Inr ()"
  by (simp add: check_def)

lemma check_False [simp]: "\<not> b \<Longrightarrow> check b e = Inl e"
  by (simp add: check_def)

lemma length_put_strided [simp]: "length (put_strided s st vs dst) = length dst"
  by (induction vs arbitrary: s dst) auto

lemma nth_put_strided:
  assumes "0 < st" "p < length dst"
  shows "put_strided s st vs dst ! p =
           (if s \<le> p \<and> (p - s) mod st = 0 \<and> (p - s) div st < length vs
            then Some (vs ! ((p - s) div st)) else dst ! p)"
  using assms
proof (induction vs arbitrary: s dst)
  case Nil
  then show ?case by simp
next
  case (Cons v vs)
  have len: "p < length (dst[s := Some v])" using Cons.prems by simp
  note IH = Cons.IH [OF Cons.prems(1) len, of "s + st"]
  show ?case
  proof (cases "s + st \<le> p")
    case True
    then have eq: "p - s = (p - (s + st)) + st" by simp
    have m: "(p - s) mod st = (p - (s + st)) mod st"
      by (subst eq) simp
    have d: "(p - s) div st = Suc ((p - (s + st)) div st)"
      using Cons.prems(1) by (subst eq) simp
    from True have ne: "p \<noteq> s" using Cons.prems(1) by simp
    show ?thesis
      using True ne by (simp add: IH m d)
  next
    case False
    show ?thesis
    proof (cases "p = s")
      case True
      have "put_strided (s + st) st vs (dst[s := Some v]) ! p = dst[s := Some v] ! p"
        using IH False by simp
      then show ?thesis using True Cons.prems by simp
    next
      case ne: False
      have "\<not> (s \<le> p \<and> (p - s) mod st = 0)"
      proof
        assume a: "s \<le> p \<and> (p - s) mod st = 0"
        then have "0 < p - s" "p - s < st" using ne False by auto
        then show False using a by simp
      qed
      then have rhs: "(s \<le> p \<and> (p - s) mod st = 0 \<and> (p - s) div st < length (v # vs)) = False"
        by (simp only: simp_thms) auto
      have "put_strided (s + st) st vs (dst[s := Some v]) ! p = dst ! p"
        using IH False ne by simp
      then show ?thesis unfolding rhs by simp
    qed
  qed
qed

lemma slice_len_block: "a < b \<Longrightarrow> slice_len (t * b) a b = t"
proof -
  assume ab: "a < b"
  show ?thesis
  proof (cases t)
    case 0
    then show ?thesis using ab by (simp add: slice_len_def)
  next
    case (Suc t')
    have le: "a \<le> t' * b + b" using ab by (simp add: trans_le_add2)
    have 1: "b * Suc t' \<le> Suc t' * b - a + (b - 1)"
      using ab le by (simp add: algebra_simps)
    have 2: "Suc t' * b - a + (b - 1) < b * Suc (Suc t')"
      using ab le by (simp add: algebra_simps)
    show ?thesis
      unfolding slice_len_def Suc by (rule div_nat_eqI [OF 1 2])
  qed
qed

lemma slice_len_bound: "0 < st \<Longrightarrow> s + m * st < n \<Longrightarrow> m < slice_len n s st"
proof -
  assume st: "0 < st" and lt: "s + m * st < n"
  have "Suc m * st \<le> n - s + (st - 1)" using st lt by (simp add: algebra_simps)
  then have "Suc m \<le> (n - s + (st - 1)) div st"
    using st by (simp add: less_eq_div_iff_mult_less_eq)
  then show ?thesis by (simp add: slice_len_def)
qed

lemma slice_len_index: "0 < st \<Longrightarrow> m < slice_len n s st \<Longrightarrow> s + m * st < n"
proof -
  assume st: "0 < st" and lt: "m < slice_len n s st"
  show ?thesis
  proof (rule ccontr)
    assume "\<not> s + m * st < n"
    then have "n - s \<le> m * st" by simp
    then have "n - s + (st - 1) < Suc m * st" using st by simp
    then have "(n - s + (st - 1)) div st < Suc m"
      using st by (simp add: div_less_iff_less_mult)
    then show False using lt by (simp add: slice_len_def)
  qed
qed

lemma rectangular_nth: "rectangular a \<Longrightarrow> r < len a \<Longrightarrow> length (rows a ! r) = ncols a"
  by (simp add: rectangular_def len_def list_all_length)

lemma brow_nth: "len a = n \<Longrightarrow> r < n \<Longrightarrow> brow a r = rows a ! r"
  by (auto simp: brow_def)

lemma len_getitem_strided [simp]: "len (getitem_strided a s st) = len a"
  by (simp add: getitem_strided_def len_def)

lemma ncols_getitem_strided [simp]: "ncols (getitem_strided a s st) = slice_len (ncols a) s st"
  by (simp add: getitem_strided_def)

lemma rows_getitem_strided:
  "r < len a \<Longrightarrow> rows (getitem_strided a s st) ! r =
     map (\<lambda>m. rows a ! r ! (s + m * st)) [0..<slice_len (ncols a) s st]"
  by (simp add: getitem_strided_def len_def slice_indices_def)

lemma mod_div_of_offset:
  fixes i m stp :: nat
  assumes "i < stp"
  shows "(i + m * stp) mod stp = i" "(i + m * stp) div stp = m"
  using assms by simp_all

lemma strided_position:
  fixes i p stp :: nat
  assumes "0 < stp" "i < stp"
  shows "(i \<le> p \<and> (p - i) mod stp = 0) = (p mod stp = i)"
    and "p mod stp = i \<Longrightarrow> (p - i) div stp = p div stp"
proof -
  show "(i \<le> p \<and> (p - i) mod stp = 0) = (p mod stp = i)"
  proof
    assume a: "i \<le> p \<and> (p - i) mod stp = 0"
    then obtain m where m: "p - i = stp * m" by (auto simp: mod_eq_0_iff_dvd)
    with a have "p = i + m * stp" by (simp add: mult.commute)
    then show "p mod stp = i" using assms by simp
  next
    assume b: "p mod stp = i"
    have "p = p div stp * stp + p mod stp" by simp
    then have "p = p div stp * stp + i" using b by simp
    then have "i \<le> p" "p - i = p div stp * stp"
      by linarith+
    then show "i \<le> p \<and> (p - i) mod stp = 0" by simp
  qed
next
  assume b: "p mod stp = i"
  have "p = p div stp * stp + p mod stp" by simp
  then have "p = p div stp * stp + i" using b by simp
  then have "p - i = p div stp * stp" by linarith
  then show "(p - i) div stp = p div stp" using assms by simp
qed

lemma setitem_strided_cells:
  assumes stp: "0 < stp" and rect: "rectangular result" and ln: "len src = len result"
    and i: "i < stp"
    and sl: "ncols src = slice_len (ncols result) i stp"
    and rs: "rectangular src"
  shows "\<exists>res. setitem_strided result i stp src = Inr res \<and>
           ncols res = ncols result \<and> len res = len result \<and> rectangular res \<and>
           (\<forall>r<len result. \<forall>p<ncols result.
              rows res ! r ! p =
                (if p mod stp = i then Some (rows src ! r ! (p div stp))
                 else rows result ! r ! p))"
proof -
  let ?n = "slice_len (ncols result) i stp"
  let ?rows = "map (\<lambda>r. put_strided i stp (rows src ! r) (rows result ! r)) [0..<len result]"
  let ?res = "\<lparr>ncols = ncols result, rows = ?rows\<rparr>"
  have br: "\<And>r. r < len result \<Longrightarrow> brow src r = rows src ! r"
    by (rule brow_nth [of _ "len result"]) (simp_all add: ln)
  have eq: "setitem_strided result i stp src = Inr ?res"
    unfolding setitem_strided_def Let_def
    using sl ln br by auto
  have rect': "rectangular ?res"
    using rect by (simp add: rectangular_def list_all_length len_def)
  have cell: "rows ?res ! r ! p =
      (if p mod stp = i then Some (rows src ! r ! (p div stp)) else rows result ! r ! p)"
    if r: "r < len result" and p: "p < ncols result" for r p
  proof -
    have lr: "length (rows result ! r) = ncols result"
      using rect r by (rule rectangular_nth)
    have ls: "length (rows src ! r) = ?n"
      using rectangular_nth [OF rs, of r] r ln sl by simp
    have "rows ?res ! r ! p = put_strided i stp (rows src ! r) (rows result ! r) ! p"
      using r by simp
    also have "\<dots> = (if i \<le> p \<and> (p - i) mod stp = 0 \<and> (p - i) div stp < ?n
                      then Some ((rows src ! r) ! ((p - i) div stp)) else rows result ! r ! p)"
      using stp p lr by (simp add: nth_put_strided ls)
    also have "\<dots> = (if p mod stp = i then Some (rows src ! r ! (p div stp))
                      else rows result ! r ! p)"
    proof (cases "p mod stp = i")
      case True
      have d: "(p - i) div stp = p div stp" using strided_position(2) [OF stp i True] .
      have c: "i \<le> p \<and> (p - i) mod stp = 0" using strided_position(1) [OF stp i] True by simp
      have "p = i + p div stp * stp" using True by (metis add.commute div_mult_mod_eq)
      then have "i + p div stp * stp < ncols result" using p by simp
      then have b: "p div stp < ?n" using stp by (rule slice_len_bound [rotated])
      show ?thesis using True c d b by simp
    next
      case False
      then have "\<not> (i \<le> p \<and> (p - i) mod stp = 0)"
        using strided_position(1) [OF stp i] by simp
      then show ?thesis using False by auto
    qed
    finally show ?thesis .
  qed
  show ?thesis
    apply (rule exI [of _ ?res])
    using eq rect' cell by (simp add: len_def)
qed

lemma rectangular_getitem_strided: "rectangular (getitem_strided a s st)"
  by (simp add: rectangular_def getitem_strided_def list_all_iff slice_indices_def)

lemma setitem_getitem:
  assumes stp: "0 < stp" and rect: "rectangular result" and ln: "len src = len result"
    and i: "offset \<le> i" "i < stp"
    and sl: "slice_len (ncols src) (i - offset) stride = slice_len (ncols result) i stp"
  shows "\<exists>res. setitem_strided result i stp (getitem_strided src (i - offset) stride) = Inr res \<and>
           ncols res = ncols result \<and> len res = len result \<and> rectangular res \<and>
           (\<forall>r<len result. \<forall>p<ncols result.
              rows res ! r ! p =
                (if p mod stp = i
                 then Some (rows src ! r ! (i - offset + (p div stp) * stride))
                 else rows result ! r ! p))"
proof -
  let ?g = "getitem_strided src (i - offset) stride"
  have ln': "len ?g = len result" using ln by simp
  have sl': "ncols ?g = slice_len (ncols result) i stp" using sl by simp
  from setitem_strided_cells [OF stp rect ln' i(2) sl' rectangular_getitem_strided]
  obtain res where r1: "setitem_strided result i stp ?g = Inr res"
    and n1: "ncols res = ncols result" and l1: "len res = len result" and rc1: "rectangular res"
    and c1: "\<forall>r<len result. \<forall>p<ncols result. rows res ! r ! p =
                (if p mod stp = i then Some (rows ?g ! r ! (p div stp)) else rows result ! r ! p)"
    by blast
  have g: "rows ?g ! r ! (p div stp) = rows src ! r ! (i - offset + (p div stp) * stride)"
    if r: "r < len result" and p: "p < ncols result" and m: "p mod stp = i" for r p
  proof -
    have "p = i + p div stp * stp" using m by (metis add.commute div_mult_mod_eq)
    then have "i + p div stp * stp < ncols result" using p by simp
    then have "p div stp < slice_len (ncols result) i stp"
      using stp by (rule slice_len_bound [rotated])
    then show ?thesis using r ln sl by (simp add: rows_getitem_strided)
  qed
  show ?thesis
    apply (rule exI [of _ res])
    using r1 n1 l1 rc1 c1 g by simp
qed

lemma assign_loop_ok:
  assumes stp: "0 < stp" and rect: "rectangular result" and ln: "len src = len result"
    and rng: "\<forall>i\<in>set js. offset \<le> i \<and> i < stp \<and>
               slice_len (ncols src) (i - offset) stride = slice_len (ncols result) i stp"
  shows "\<exists>res. assign_loop js offset stp stride src result = Inr res \<and>
           ncols res = ncols result \<and> len res = len result \<and> rectangular res \<and>
           (\<forall>r<len result. \<forall>p<ncols result.
              rows res ! r ! p =
                (if p mod stp \<in> set js
                 then Some (rows src ! r ! (p mod stp - offset + (p div stp) * stride))
                 else rows result ! r ! p))"
  using rect ln rng
proof (induction js arbitrary: result)
  case Nil
  then show ?case by simp
next
  case (Cons i js)
  from Cons.prems(3) have i: "offset \<le> i" "i < stp"
    and sl: "slice_len (ncols src) (i - offset) stride = slice_len (ncols result) i stp"
    by simp_all
  from setitem_getitem [OF stp Cons.prems(1) Cons.prems(2) i sl]
  obtain res1 where r1: "setitem_strided result i stp (getitem_strided src (i - offset) stride) = Inr res1"
    and n1: "ncols res1 = ncols result" and l1: "len res1 = len result" and rc1: "rectangular res1"
    and c1: "\<forall>r<len result. \<forall>p<ncols result. rows res1 ! r ! p =
                (if p mod stp = i then Some (rows src ! r ! (i - offset + (p div stp) * stride))
                 else rows result ! r ! p)"
    by blast
  have js': "\<forall>j\<in>set js. offset \<le> j \<and> j < stp \<and>
               slice_len (ncols src) (j - offset) stride = slice_len (ncols res1) j stp"
    using Cons.prems(3) n1 by simp
  have ln': "len src = len res1" using Cons.prems(2) l1 by simp
  from Cons.IH [OF rc1 ln' js']
  obtain res where r2: "assign_loop js offset stp stride src res1 = Inr res"
    and n2: "ncols res = ncols res1" and l2: "len res = len res1" and rc2: "rectangular res"
    and c2: "\<forall>r<len res1. \<forall>p<ncols res1. rows res ! r ! p =
                (if p mod stp \<in> set js
                 then Some (rows src ! r ! (p mod stp - offset + (p div stp) * stride))
                 else rows res1 ! r ! p)"
    by blast
  show ?case
    apply (rule exI [of _ res])
    using r1 r2 n1 n2 l1 l2 rc2 c1 c2 by auto
qed

lemma rectangular_map_array [simp]: "rectangular (map_array f a) = rectangular a"
  by (simp add: rectangular_def map_array_def list_all_iff)

lemma len_map_array [simp]: "len (map_array f a) = len a"
  by (simp add: len_def map_array_def)

lemma ncols_map_array [simp]: "ncols (map_array f a) = ncols a"
  by (simp add: map_array_def)

lemma rows_map_array:
  "rectangular a \<Longrightarrow> r < len a \<Longrightarrow> c < ncols a \<Longrightarrow> rows (map_array f a) ! r ! c = f (rows a ! r ! c)"
  using rectangular_nth [of a r] by (simp add: map_array_def len_def)

lemma block_index:
  fixes d q b :: nat
  assumes "q < b"
  shows "(d * b + q) mod b = q" "(d * b + q) div b = d"
  using assms by simp_all

lemma block_bound:
  fixes d q b T :: nat
  assumes "d < T" "q < b"
  shows "d * b + q < T * b"
proof -
  have "d * b + q < d * b + b" using assms by simp
  also have "\<dots> = Suc d * b" by simp
  also have "\<dots> \<le> T * b" using assms by (intro mult_le_mono1) simp
  finally show ?thesis .
qed

lemma pack_record_layout:
  assumes T: "0 < T"
    and w: "rectangular w" "len w = n" "ncols w = k * T"
    and t: "rectangular t" "len t = n" "ncols t = k * T"
    and p: "rectangular p" "len p = n" "ncols p = 2 * k * T"
  shows "\<exists>rec. pack_record T (k * T) k w t p = Inr rec \<and>
           ncols rec = T * (4 * k + 1) \<and> len rec = n \<and>
           (\<forall>r<n. \<forall>d<T.
              rows rec ! r ! (d * (4 * k + 1)) = Some (Fin (real k)) \<and>
              (\<forall>c<k. rows rec ! r ! (d * (4 * k + 1) + 1 + c) = Some (rows w ! r ! (d * k + c)) \<and>
                      rows rec ! r ! (d * (4 * k + 1) + 1 + k + c) =
                        Some (Fin (rows t ! r ! (d * k + c)))) \<and>
              (\<forall>m<2 * k. rows rec ! r ! (d * (4 * k + 1) + 1 + 2 * k + m) =
                        Some (Fin (rows p ! r ! (d * (2 * k) + m)))))"
proof -
  define stp where "stp = 4 * k + 1"
  define tot where "tot = T * stp"
  define sizes :: "fl ndarray"
    where "sizes = \<lparr>ncols = T, rows = replicate n (replicate T (Fin (real k)))\<rparr>"
  define r0 :: "fl option ndarray"
    where "r0 = \<lparr>ncols = tot, rows = replicate n (replicate tot None)\<rparr>"
  have tot: "T + (k * T + k * T + 2 * k * T) = tot"
    unfolding tot_def stp_def by (simp add: algebra_simps)
  have stp: "(k * T + k * T + 2 * k * T + T) div T = stp"
  proof -
    have "k * T + k * T + 2 * k * T + T = stp * T"
      unfolding stp_def by (simp add: algebra_simps)
    then show ?thesis using T by simp
  qed
  have ppd: "2 * k * T div T = 2 * k" using T by simp
  have stp0: "0 < stp" unfolding stp_def by simp
  have rc0: "rectangular r0" unfolding r0_def by (simp add: rectangular_def list_all_iff)
  have l0: "len r0 = n" unfolding r0_def by (simp add: len_def)
  have n0: "ncols r0 = tot" unfolding r0_def by simp
  have c0: "rows r0 ! r ! q = None" if "r < n" "q < tot" for r q
    unfolding r0_def using that by simp
  have blk: "slice_len tot i stp = T" if "i < stp" for i
    unfolding tot_def using that by (rule slice_len_block)
  \<comment> \<open>the sizes\<close>
  have s1: "len sizes = len r0" unfolding sizes_def l0 by (simp add: len_def)
  have s2: "ncols sizes = slice_len (ncols r0) 0 stp"
    unfolding n0 blk [OF stp0] sizes_def by simp
  have s3: "rectangular sizes" unfolding sizes_def by (simp add: rectangular_def list_all_iff)
  from setitem_strided_cells [OF stp0 rc0 s1 stp0 s2 s3]
  obtain r1 where e1: "setitem_strided r0 0 stp sizes = Inr r1"
    and n1: "ncols r1 = tot" and l1: "len r1 = n" and rc1: "rectangular r1"
    and c1: "\<forall>r<n. \<forall>q<tot. rows r1 ! r ! q =
                (if q mod stp = 0 then Some (rows sizes ! r ! (q div stp)) else rows r0 ! r ! q)"
    unfolding l0 n0 by (elim exE conjE)
  \<comment> \<open>the weights\<close>
  have w1: "len w = len r1" using w l1 by simp
  have w2: "\<forall>i\<in>set [1..<k + 1]. 1 \<le> i \<and> i < stp \<and>
            slice_len (ncols w) (i - 1) k = slice_len (ncols r1) i stp"
  proof
    fix i assume "i \<in> set [1..<k + 1]"
    then have i: "1 \<le> i" "i < k + 1" by auto
    have ist: "i < stp" using i unfolding stp_def by simp
    have a: "slice_len (T * k) (i - 1) k = T" using i by (intro slice_len_block) simp
    show "1 \<le> i \<and> i < stp \<and> slice_len (ncols w) (i - 1) k = slice_len (ncols r1) i stp"
      using i ist a blk [OF ist] w(3) n1 by (simp add: mult.commute)
  qed
  from assign_loop_ok [OF stp0 rc1 w1 w2]
  obtain r2 where e2: "assign_loop [1..<k + 1] 1 stp k w r1 = Inr r2"
    and n2: "ncols r2 = tot" and l2: "len r2 = n" and rc2: "rectangular r2"
    and c2: "\<forall>r<n. \<forall>q<tot. rows r2 ! r ! q =
                (if q mod stp \<in> set [1..<k + 1]
                 then Some (rows w ! r ! (q mod stp - 1 + (q div stp) * k))
                 else rows r1 ! r ! q)"
    unfolding l1 n1 by (elim exE conjE)
  \<comment> \<open>the types\<close>
  have t1: "len (map_array Fin t) = len r2" using t l2 by simp
  have t2: "\<forall>i\<in>set [1 + k..<k + (1 + k)]. 1 + k \<le> i \<and> i < stp \<and>
            slice_len (ncols (map_array Fin t)) (i - (1 + k)) k = slice_len (ncols r2) i stp"
  proof
    fix i assume "i \<in> set [1 + k..<k + (1 + k)]"
    then have i: "1 + k \<le> i" "i < k + (1 + k)" by auto
    have ist: "i < stp" using i unfolding stp_def by simp
    have a: "slice_len (T * k) (i - (1 + k)) k = T" using i by (intro slice_len_block) simp
    show "1 + k \<le> i \<and> i < stp \<and>
          slice_len (ncols (map_array Fin t)) (i - (1 + k)) k = slice_len (ncols r2) i stp"
      using i ist a blk [OF ist] t(3) n2 by (simp add: mult.commute)
  qed
  from assign_loop_ok [OF stp0 rc2 t1 t2]
  obtain r3 where e3: "assign_loop [1 + k..<k + (1 + k)] (1 + k) stp k (map_array Fin t) r2 = Inr r3"
    and n3: "ncols r3 = tot" and l3: "len r3 = n" and rc3: "rectangular r3"
    and c3: "\<forall>r<n. \<forall>q<tot. rows r3 ! r ! q =
                (if q mod stp \<in> set [1 + k..<k + (1 + k)]
                 then Some (rows (map_array Fin t) ! r ! (q mod stp - (1 + k) + (q div stp) * k))
                 else rows r2 ! r ! q)"
    unfolding l2 n2 by (elim exE conjE)
  \<comment> \<open>the parameters\<close>
  have p1: "len (map_array Fin p) = len r3" using p l3 by simp
  have p2: "\<forall>i\<in>set [1 + k + k..<2 * k + (1 + k + k)]. 1 + k + k \<le> i \<and> i < stp \<and>
            slice_len (ncols (map_array Fin p)) (i - (1 + k + k)) (2 * k) = slice_len (ncols r3) i stp"
  proof
    fix i assume "i \<in> set [1 + k + k..<2 * k + (1 + k + k)]"
    then have i: "1 + k + k \<le> i" "i < 2 * k + (1 + k + k)" by auto
    have ist: "i < stp" using i unfolding stp_def by simp
    have a: "slice_len (T * (2 * k)) (i - (1 + k + k)) (2 * k) = T"
      using i by (intro slice_len_block) simp
    have pc: "ncols p = T * (2 * k)" using p(3) by (simp add: mult.commute)
    show "1 + k + k \<le> i \<and> i < stp \<and>
          slice_len (ncols (map_array Fin p)) (i - (1 + k + k)) (2 * k) = slice_len (ncols r3) i stp"
      using i ist a blk [OF ist] pc n3 by simp
  qed
  from assign_loop_ok [OF stp0 rc3 p1 p2]
  obtain r4 where e4: "assign_loop [1 + k + k..<2 * k + (1 + k + k)] (1 + k + k) stp (2 * k)
                  (map_array Fin p) r3 = Inr r4"
    and n4: "ncols r4 = tot" and l4: "len r4 = n"
    and c4: "\<forall>r<n. \<forall>q<tot. rows r4 ! r ! q =
                (if q mod stp \<in> set [1 + k + k..<2 * k + (1 + k + k)]
                 then Some (rows (map_array Fin p) ! r !
                              (q mod stp - (1 + k + k) + (q div stp) * (2 * k)))
                 else rows r3 ! r ! q)"
    unfolding l3 n3 by (elim exE conjE)
  have pack: "pack_record T (k * T) k w t p = Inr r4"
    unfolding pack_record_def Let_def
    by (simp only: w(3) t(2) p(3) tot stp ppd e1 [unfolded r0_def sizes_def] e2 e3 e4 bindE_Inr)
  have at: "rows r4 ! r ! (d * stp + q) =
      (if 1 + k + k \<le> q
       then Some (rows (map_array Fin p) ! r ! (q - (1 + k + k) + d * (2 * k)))
       else if 1 + k \<le> q
       then Some (rows (map_array Fin t) ! r ! (q - (1 + k) + d * k))
       else if 1 \<le> q then Some (rows w ! r ! (q - 1 + d * k))
       else Some (Fin (real k)))"
    if r: "r < n" and d: "d < T" and q: "q < stp" for r d q
  proof -
    have b: "d * stp + q < tot" unfolding tot_def using d q by (rule block_bound)
    have md: "(d * stp + q) mod stp = q" "(d * stp + q) div stp = d"
      using q by (rule block_index)+
    have sz: "rows sizes ! r ! d = Fin (real k)"
      unfolding sizes_def using r d by simp
    have f1: "rows r1 ! r ! (d * stp + q) =
        (if q = 0 then Some (Fin (real k)) else None)"
      using c1 [rule_format, OF r b] c0 [OF r b] sz unfolding md by simp
    have f2: "rows r2 ! r ! (d * stp + q) =
        (if 1 \<le> q \<and> q < k + 1 then Some (rows w ! r ! (q - 1 + d * k))
         else rows r1 ! r ! (d * stp + q))"
      using c2 [rule_format, OF r b] unfolding md set_upt atLeastLessThan_iff .
    have f3: "rows r3 ! r ! (d * stp + q) =
        (if 1 + k \<le> q \<and> q < k + (1 + k)
         then Some (rows (map_array Fin t) ! r ! (q - (1 + k) + d * k))
         else rows r2 ! r ! (d * stp + q))"
      using c3 [rule_format, OF r b] unfolding md set_upt atLeastLessThan_iff .
    have f4: "rows r4 ! r ! (d * stp + q) =
        (if 1 + k + k \<le> q \<and> q < 2 * k + (1 + k + k)
         then Some (rows (map_array Fin p) ! r ! (q - (1 + k + k) + d * (2 * k)))
         else rows r3 ! r ! (d * stp + q))"
      using c4 [rule_format, OF r b] unfolding md set_upt atLeastLessThan_iff .
    have q4: "q < 2 * k + (1 + k + k)" using q unfolding stp_def by simp
    show ?thesis
    proof (cases "1 + k + k \<le> q")
      case True
      then show ?thesis using f4 q4 by simp
    next
      case n4: False
      show ?thesis
      proof (cases "1 + k \<le> q")
        case True
        then show ?thesis using f4 f3 n4 by simp
      next
        case n3: False
        show ?thesis
        proof (cases "1 \<le> q")
          case True
          then show ?thesis using f4 f3 f2 n4 n3 by simp
        next
          case False
          then show ?thesis using f4 f3 f2 f1 n4 n3 by simp
        qed
      qed
    qed
  qed
  have cells: "rows r4 ! r ! (d * stp) = Some (Fin (real k)) \<and>
              (\<forall>c<k. rows r4 ! r ! (d * stp + 1 + c) = Some (rows w ! r ! (d * k + c)) \<and>
                      rows r4 ! r ! (d * stp + 1 + k + c) = Some (Fin (rows t ! r ! (d * k + c)))) \<and>
              (\<forall>m<2 * k. rows r4 ! r ! (d * stp + 1 + 2 * k + m) =
                        Some (Fin (rows p ! r ! (d * (2 * k) + m))))"
    if r: "r < n" and d: "d < T" for r d
  proof (intro conjI allI impI)
    show "rows r4 ! r ! (d * stp) = Some (Fin (real k))"
      using at [OF r d stp0] by simp
  next
    fix c assume c: "c < k"
    have q: "1 + c < stp" using c unfolding stp_def by simp
    have "rows r4 ! r ! (d * stp + (1 + c)) = Some (rows w ! r ! (d * k + c))"
      using at [OF r d q] c by (simp add: add.commute)
    then show "rows r4 ! r ! (d * stp + 1 + c) = Some (rows w ! r ! (d * k + c))"
      by (simp only: add.assoc)
  next
    fix c assume c: "c < k"
    have q: "1 + k + c < stp" using c unfolding stp_def by simp
    have ix: "d * k + c < ncols t" using block_bound [OF d c] t(3) by (simp add: mult.commute)
    have "rows (map_array Fin t) ! r ! (d * k + c) = Fin (rows t ! r ! (d * k + c))"
      using t r ix by (intro rows_map_array) simp_all
    then have "rows r4 ! r ! (d * stp + (1 + k + c)) = Some (Fin (rows t ! r ! (d * k + c)))"
      using at [OF r d q] c by (simp add: add.commute)
    then show "rows r4 ! r ! (d * stp + 1 + k + c) = Some (Fin (rows t ! r ! (d * k + c)))"
      by (simp only: add.assoc)
  next
    fix m assume m: "m < 2 * k"
    have q: "1 + k + k + m < stp" using m unfolding stp_def by simp
    have ix: "d * (2 * k) + m < ncols p" using block_bound [OF d m] p(3) by (simp add: mult.commute)
    have "rows (map_array Fin p) ! r ! (d * (2 * k) + m) = Fin (rows p ! r ! (d * (2 * k) + m))"
      using p r ix by (intro rows_map_array) simp_all
    then have "rows r4 ! r ! (d * stp + (1 + k + k + m)) = Some (Fin (rows p ! r ! (d * (2 * k) + m)))"
      using at [OF r d q] m by (simp add: add.commute)
    then show "rows r4 ! r ! (d * stp + 1 + 2 * k + m) = Some (Fin (rows p ! r ! (d * (2 * k) + m)))"
      by (simp only: add.assoc mult_2)
  qed
  show ?thesis
    apply (rule exI [of _ r4])
    unfolding stp_def [symmetric]
    using pack n4 l4 cells unfolding tot_def by blast
qed

section \<open>Properties of the reconstruction\<close>

lemma float_overflow_large: "1000 < float_overflow"
  by (simp add: float_overflow_def)

lemma overflow_Fin: "- float_overflow < x \<Longrightarrow> x < float_overflow \<Longrightarrow> overflow x = Fin x"
  by (simp add: overflow_def)

lemma overflow_small: "\<bar>x\<bar> \<le> 1000 \<Longrightarrow> overflow x = Fin x"
  using float_overflow_large by (intro overflow_Fin) linarith+



lemma fl_exp_diff: "fl_exp (fl_sub v v) = (case v of Fin x \<Rightarrow> Fin 1 | _ \<Rightarrow> NaN)"
  using float_overflow_large by (cases v) (simp_all add: fl_sub_def overflow_def)

lemma fl_mul_one: "fl_mul (Fin w) (Fin 1) = overflow w"
  by simp

lemma fl_add_NaN_right [simp]: "fl_add a NaN = NaN"
  by (cases a) simp_all

lemma foldl_fl_add_NaN: "foldl fl_add NaN xs = NaN"
  by (induction xs) simp_all

lemma foldl_fl_add_mem: "NaN \<in> set xs \<Longrightarrow> foldl fl_add a xs = NaN"
proof (induction xs arbitrary: a)
  case Nil
  then show ?case by simp
next
  case (Cons x xs)
  show ?case
  proof (cases "x = NaN")
    case True
    then show ?thesis by (simp add: foldl_fl_add_NaN)
  next
    case False
    then show ?thesis using Cons by simp
  qed
qed

lemma fl_sum_NaN: "NaN \<in> set xs \<Longrightarrow> fl_sum xs = NaN"
  by (simp add: fl_sum_def foldl_fl_add_mem)

lemma foldl_fl_add_nonneg:
  "\<forall>x\<in>set xs. 0 \<le> x \<Longrightarrow> 0 \<le> a \<Longrightarrow> a + sum_list xs < float_overflow \<Longrightarrow>
   foldl fl_add (Fin a) (map overflow xs) = Fin (a + sum_list xs)"
proof (induction xs arbitrary: a)
  case Nil
  then show ?case by simp
next
  case (Cons x xs)
  have s: "0 \<le> sum_list xs" using Cons.prems(1) by (intro sum_list_nonneg) simp
  have x: "0 \<le> x" using Cons.prems(1) by simp
  have o1: "overflow x = Fin x"
    using x s Cons.prems(2,3) float_overflow_large by (intro overflow_Fin) simp_all
  have o2: "overflow (a + x) = Fin (a + x)"
    using x s Cons.prems(2,3) float_overflow_large by (intro overflow_Fin) simp_all
  have "foldl fl_add (Fin (a + x)) (map overflow xs) = Fin (a + x + sum_list xs)"
    using Cons.prems x by (intro Cons.IH) (simp_all add: add.assoc)
  then show ?case by (simp add: o1 o2 add.assoc)
qed

lemma fl_sum_weights:
  assumes "\<forall>j<k. 0 \<le> ws ! j" and "(\<Sum>j<k. ws ! j) < float_overflow"
  shows "fl_sum (map (\<lambda>j. overflow (ws ! j)) [0..<k]) = Fin (\<Sum>j<k. ws ! j)"
proof -
  have e: "sum_list (map (\<lambda>j. ws ! j) [0..<k]) = (\<Sum>j<k. ws ! j)"
    by (simp add: interv_sum_list_conv_sum_set_nat atLeast0LessThan)
  have "foldl fl_add (Fin 0) (map overflow (map (\<lambda>j. ws ! j) [0..<k])) =
        Fin (0 + sum_list (map (\<lambda>j. ws ! j) [0..<k]))"
    using assms by (intro foldl_fl_add_nonneg) (simp_all add: e)
  then show ?thesis by (simp add: fl_sum_def e comp_def)
qed

lemma norm_logpdf_nonpos: "scale \<le> 0 \<Longrightarrow> norm_logpdf x loc scale = NaN"
  by (simp add: norm_logpdf_def)

lemma log_norm_const: "0 \<le> ln (sqrt (2 * pi))" "ln (sqrt (2 * pi)) \<le> 1000"
proof -
  have a: "1 \<le> sqrt (2 * pi)"
    using pi_ge_two by (simp add: real_le_rsqrt)
  show "0 \<le> ln (sqrt (2 * pi))" using a by simp
  have b: "sqrt (2 * pi) \<le> 2 * pi" using pi_ge_two by (intro real_le_lsqrt) (simp_all add: power2_eq_square)
  have "ln (sqrt (2 * pi)) \<le> sqrt (2 * pi) - 1" using a by (intro ln_le_minus_one) simp
  also have "\<dots> \<le> 2 * pi" using b by simp
  also have "\<dots> \<le> 1000" using pi_less_4 by simp
  finally show "ln (sqrt (2 * pi)) \<le> 1000" .
qed

lemma norm_logpdf_at_mean: "norm_logpdf m m 1 = Fin (- ln (sqrt (2 * pi)))"
proof -
  have z: "overflow 0 = Fin 0" by (rule overflow_small) simp
  have c: "overflow (- ln (sqrt (2 * pi))) = Fin (- ln (sqrt (2 * pi)))"
    using log_norm_const by (intro overflow_small) simp
  show ?thesis
    by (simp add: norm_logpdf_def fl_sub_def z c)
qed



lemma length_norm_w_row [simp]: "length (norm_w_row k T y mus sigmas ws) = k * T"
  by (simp add: norm_w_row_def reshape_F_row_def Let_def)

text \<open>Every component has the same exclusion likelihood: the sum of the log-densities
  of the targets before \<open>d\<close>.\<close>

lemma norm_w_row_nth:
  assumes c: "c < k" and d: "d < T"
  shows "norm_w_row k T y mus sigmas ws ! (d * k + c) =
           (case fl_sum (map (\<lambda>i. norm_logpdf (y ! i) (mus ! i) (sigmas ! i)) [0..<d]) of
              Fin x \<Rightarrow> fl_div (Fin (ws ! c)) (fl_sum (map (\<lambda>j. overflow (ws ! j)) [0..<k]))
            | _ \<Rightarrow> NaN)"
proof -
  let ?lp = "map (\<lambda>i. norm_logpdf (y ! i) (mus ! i) (sigmas ! i)) [0..<T]"
  let ?L = "fl_sum (take d ?lp)"
  have k0: "0 < k" using c by simp
  have ix: "d * k + c < k * T" using block_bound [OF d c] by (simp add: mult.commute)
  have md: "(d * k + c) mod k = c" "(d * k + c) div k = d"
    using c by (rule block_index)+
  have tk: "take d ?lp = map (\<lambda>i. norm_logpdf (y ! i) (mus ! i) (sigmas ! i)) [0..<d]"
    using d by (simp add: take_map min_def)
  have pe: "p_excluded_row T (l_probs_row k T y mus sigmas) ! j ! d = ?L" if "j < k" for j
    using that d by (simp add: p_excluded_row_def l_probs_row_def)
  have df: "diffs_row k T ws (p_excluded_row T (l_probs_row k T y mus sigmas)) ! c ! d =
      fl_sum (map (\<lambda>j. fl_mul (Fin (ws ! j)) (fl_exp (fl_sub ?L ?L))) [0..<k])"
  proof -
    have meq: "map (\<lambda>j. fl_mul (Fin (ws ! j))
                 (fl_exp (fl_sub (p_excluded_row T (l_probs_row k T y mus sigmas) ! c ! d)
                                 (p_excluded_row T (l_probs_row k T y mus sigmas) ! j ! d)))) [0..<k] =
          map (\<lambda>j. fl_mul (Fin (ws ! j)) (fl_exp (fl_sub ?L ?L))) [0..<k]"
      using pe c by simp
    show ?thesis using c d by (simp add: diffs_row_def meq)
  qed
  have nw: "norm_w_row k T y mus sigmas ws ! (d * k + c) =
      fl_div (Fin (ws ! c))
        (fl_sum (map (\<lambda>j. fl_mul (Fin (ws ! j)) (fl_exp (fl_sub ?L ?L))) [0..<k]))"
    unfolding norm_w_row_def Let_def reshape_F_row_def
    using ix c d df by (simp add: md final_w_row_def)
  show ?thesis
  proof (cases "\<exists>x. ?L = Fin x")
    case True
    then obtain x where x: "?L = Fin x" by blast
    have "fl_exp (fl_sub ?L ?L) = Fin 1" unfolding fl_exp_diff x by simp
    then show ?thesis unfolding nw using x tk by simp
  next
    case False
    then have e: "fl_exp (fl_sub ?L ?L) = NaN" unfolding fl_exp_diff by (cases ?L) simp_all
    have "NaN \<in> set (map (\<lambda>j. fl_mul (Fin (ws ! j)) NaN) [0..<k])" using k0 by force
    then have "fl_sum (map (\<lambda>j. fl_mul (Fin (ws ! j)) NaN) [0..<k]) = NaN" by (rule fl_sum_NaN)
    then have "norm_w_row k T y mus sigmas ws ! (d * k + c) = NaN" unfolding nw e by simp
    then show ?thesis using False tk by (cases ?L) simp_all
  qed
qed

text \<open>The written weight in the three cases that matter: a standard deviation that is
  not positive, an overflow, and a mixture whose exclusion likelihood is finite.\<close>

lemma log_density_sum_NaN:
  assumes "i < d" "params ! (2 * i + 1) \<le> 0"
  shows "log_density_sum y params d = NaN"
proof -
  have "norm_logpdf (y ! i) (params ! (2 * i)) (params ! (2 * i + 1)) = NaN"
    using assms(2) by (rule norm_logpdf_nonpos)
  then have "NaN \<in> set (map (\<lambda>i. norm_logpdf (y ! i) (params ! (2 * i)) (params ! (2 * i + 1)))
      [0..<d])"
    using assms(1) by force
  then show ?thesis unfolding log_density_sum_def by (rule fl_sum_NaN)
qed

lemma written_weight_NaN:
  "i < d \<Longrightarrow> params ! (2 * i + 1) \<le> 0 \<Longrightarrow> written_weight k y params ws d c = NaN"
  by (simp add: written_weight_def log_density_sum_NaN)


lemma written_weight_mixture:
  assumes L: "log_density_sum y params d = Fin x"
    and nonneg: "\<forall>j<k. 0 \<le> ws ! j"
    and pos: "0 < (\<Sum>j<k. ws ! j)"
    and bound: "(\<Sum>j<k. ws ! j) < float_overflow"
    and c: "c < k"
  shows "written_weight k y params ws d c = Fin (ws ! c / (\<Sum>j<k. ws ! j))"
proof -
  let ?S = "\<Sum>j<k. ws ! j"
  have wc: "0 \<le> ws ! c" using nonneg c by simp
  have "ws ! c \<le> ?S"
  proof -
    have "(\<Sum>j\<in>{c}. ws ! j) \<le> (\<Sum>j\<in>{..<k}. ws ! j)"
      using nonneg c by (intro sum_mono2) auto
    then show ?thesis by simp
  qed
  then have q1: "ws ! c / ?S \<le> 1" using pos by (simp add: divide_le_eq)
  have q0: "0 \<le> ws ! c / ?S" using wc pos by simp
  have o: "overflow (ws ! c / ?S) = Fin (ws ! c / ?S)"
    using q0 q1 by (intro overflow_small) simp
  show ?thesis
    unfolding written_weight_def L fl_sum_weights [OF nonneg bound]
    using pos o by simp
qed


lemma log_density_sum_1:
  "log_density_sum y params (Suc 0) = fl_add (Fin 0) (norm_logpdf (y ! 0) (params ! 0) (params ! 1))"
  by (simp add: log_density_sum_def fl_sum_def)

lemma log_density_sum_at_mean:
  assumes "y ! 0 = params ! 0" "params ! 1 = 1"
  shows "log_density_sum y params (Suc 0) = Fin (- ln (sqrt (2 * pi)))"
proof -
  have c: "overflow (- ln (sqrt (2 * pi))) = Fin (- ln (sqrt (2 * pi)))"
    using log_norm_const by (intro overflow_small) simp
  show ?thesis
    unfolding log_density_sum_1 assms norm_logpdf_at_mean using c by simp
qed


lemma l_probs_check_ok:
  assumes "\<forall>i\<in>set js. i < ncols y \<and> i < ncols mus \<and> i < ncols sigmas"
    and "len y = n" "len mus = n"
  shows "l_probs_check js y mus sigmas n = Inr ()"
  using assms by (induction js) simp_all

lemma len_getitem_upto [simp]: "len (getitem_upto a s) = len a"
  by (simp add: getitem_upto_def len_def Let_def)

lemma rows_getitem_upto_nat:
  "r < len a \<Longrightarrow> rows (getitem_upto a (int k)) ! r = take (min k (ncols a)) (rows a ! r)"
  by (simp add: getitem_upto_def len_def Let_def)

lemma ncols_getitem_upto_nat [simp]: "ncols (getitem_upto a (int k)) = min k (ncols a)"
  by (simp add: getitem_upto_def Let_def)

lemma len_df_values [simp]: "len (df_values df) = df_len df"
  by (simp add: df_values_def len_def)

lemma ncols_df_values [simp]: "ncols (df_values df) = length (df_columns df)"
  by (simp add: df_values_def)

lemma normalize_weights_cells:
  assumes T: "0 < T"
    and w: "rectangular w" "len w = n" "ncols w = k * T"
    and t: "len t = n"
    and p: "rectangular p" "len p = n" "ncols p = 2 * k * T"
    and n: "0 < n"
    and y: "df_len ydf = n" "T \<le> length (df_columns ydf)"
  shows "\<exists>w'. normalize_weights T k (Some ydf) w t p = Inr w' \<and>
           rectangular w' \<and> len w' = n \<and> ncols w' = k * T \<and>
           (\<forall>r<n. \<forall>d<T. \<forall>c<k.
              rows w' ! r ! (d * k + c) =
                written_weight k (rows (df_values ydf) ! r) (rows p ! r) (rows w ! r) d c)"
proof -
  define yv where "yv = df_values ydf"
  define mus where "mus = getitem_strided p 0 2"
  define sigmas where "sigmas = getitem_strided p 1 2"
  define weights_s where "weights_s = getitem_upto w (int k)"
  define w' :: "fl ndarray" where "w' = \<lparr>ncols = k * T,
      rows = map (\<lambda>r. norm_w_row k T (brow yv r) (brow mus r) (brow sigmas r) (brow weights_s r))
               [0..<n]\<rparr>"
  have pc: "ncols p = (k * T) * 2" using p(3) by (simp add: mult.commute)
  have nm: "ncols mus = k * T" unfolding mus_def using pc slice_len_block [of 0 2 "k * T"] by simp
  have ns: "ncols sigmas = k * T"
    unfolding sigmas_def using pc slice_len_block [of 1 2 "k * T"] by simp
  have lens: "len yv = n" "len mus = n" "len sigmas = n" "len weights_s = n"
    unfolding yv_def mus_def sigmas_def weights_s_def using y p w by simp_all
  have nws: "ncols weights_s = k" unfolding weights_s_def using w(3) T by simp
  have chk1: "(if k = 0 then Inr () else l_probs_check [0..<T] yv mus sigmas n) = Inr ()"
  proof (cases "k = 0")
    case True
    then show ?thesis by simp
  next
    case False
    then have tk: "T \<le> k * T" by simp
    have "\<forall>i\<in>set [0..<T]. i < ncols yv \<and> i < ncols mus \<and> i < ncols sigmas"
    proof
      fix i assume "i \<in> set [0..<T]"
      then have i: "i < T" by simp
      then have "i < k * T" using tk by (rule less_le_trans)
      moreover have "i < length (df_columns ydf)" using i y(2) by (rule less_le_trans)
      ultimately show "i < ncols yv \<and> i < ncols mus \<and> i < ncols sigmas"
        unfolding yv_def nm ns by simp
    qed
    then show ?thesis using False lens by (simp add: l_probs_check_ok)
  qed
  have chk2: "(if k = 0 then len weights_s = n \<or> len weights_s = 1 \<or> n = 1
               else ncols weights_s = k \<and> (len weights_s = n \<or> len weights_s = 1)) = True"
    using lens nws by simp
  have eq: "normalize_weights T k (Some ydf) w t p = Inr w'"
    unfolding normalize_weights_def Let_def option.case
      yv_def [symmetric] mus_def [symmetric] sigmas_def [symmetric] weights_s_def [symmetric]
    unfolding chk1 chk2 t w'_def using n by simp
  have rc: "rectangular w'" unfolding w'_def by (simp add: rectangular_def list_all_iff)
  have cell: "rows w' ! r ! (d * k + c) =
                written_weight k (rows (df_values ydf) ! r) (rows p ! r) (rows w ! r) d c"
    if r: "r < n" and d: "d < T" and c: "c < k" for r d c
  proof -
    have dk: "d \<le> k * T"
    proof -
      have "d < T * 1" using d by simp
      also have "\<dots> \<le> T * k" using c by (intro mult_le_mono2) simp
      finally show ?thesis by (simp add: mult.commute)
    qed
    have sg: "brow sigmas r ! i = rows p ! r ! (2 * i + 1)" if "i < d" for i
    proof -
      have "i < slice_len (ncols p) 1 2" using that dk ns unfolding sigmas_def by simp
      then show ?thesis
        unfolding brow_nth [OF lens(3) r]
        unfolding sigmas_def
        using r p(2) by (simp add: rows_getitem_strided mult.commute)
    qed
    have mu: "brow mus r ! i = rows p ! r ! (2 * i)" if "i < d" for i
    proof -
      have "i < slice_len (ncols p) 0 2" using that dk nm unfolding mus_def by simp
      then show ?thesis
        unfolding brow_nth [OF lens(2) r]
        unfolding mus_def
        using r p(2) by (simp add: rows_getitem_strided mult.commute)
    qed
    have yr: "brow yv r = rows (df_values ydf) ! r"
      using brow_nth [OF lens(1) r] unfolding yv_def .
    have ws: "brow weights_s r ! j = rows w ! r ! j" if "j < k" for j
    proof -
      have "k \<le> k * T" using T by simp
      then show ?thesis
        unfolding brow_nth [OF lens(4) r]
        unfolding weights_s_def
        using r w that by (simp add: rows_getitem_upto_nat min_def)
    qed
    have lp: "map (\<lambda>i. norm_logpdf (brow yv r ! i) (brow mus r ! i) (brow sigmas r ! i)) [0..<d] =
        map (\<lambda>i. norm_logpdf (rows (df_values ydf) ! r ! i) (rows p ! r ! (2 * i))
                    (rows p ! r ! (2 * i + 1))) [0..<d]"
      by (rule map_cong) (simp_all add: sg mu yr)
    have wm: "map (\<lambda>j. overflow (brow weights_s r ! j)) [0..<k] =
        map (\<lambda>j. overflow (rows w ! r ! j)) [0..<k]"
      by (rule map_cong) (simp_all add: ws)
    have "rows w' ! r ! (d * k + c) =
        norm_w_row k T (brow yv r) (brow mus r) (brow sigmas r) (brow weights_s r) ! (d * k + c)"
      unfolding w'_def using r by simp
    also have "\<dots> = written_weight k (rows (df_values ydf) ! r) (rows p ! r) (rows w ! r) d c"
      unfolding norm_w_row_nth [OF c d] lp wm ws [OF c] written_weight_def log_density_sum_def ..
    finally show ?thesis .
  qed
  show ?thesis
    apply (rule exI [of _ w'])
    using eq rc cell unfolding w'_def len_def by simp
qed

lemma length_concat_filter:
  assumes "\<forall>l\<in>set ls. l \<in> fst ` set cols"
  shows "length ls \<le> length (concat (map (\<lambda>l. filter (\<lambda>c. fst c = l) cols) ls))"
  using assms
proof (induction ls)
  case Nil
  then show ?case by simp
next
  case (Cons l ls)
  then obtain c where "c \<in> set cols" "fst c = l" by auto
  then have "filter (\<lambda>c. fst c = l) cols \<noteq> []" by (auto simp: filter_empty_conv)
  then have "1 \<le> length (filter (\<lambda>c. fst c = l) cols)"
    by (simp add: Suc_le_eq)
  then show ?case using Cons by simp
qed

lemma extract_truth_DataFrame:
  assumes "extract_truth self (DataFrame df) = Inr (X, y)"
  shows "\<exists>ydf. y = Some ydf \<and> df_len ydf = df_len df \<and>
           length (target_column_name self) \<le> length (df_columns ydf)"
proof -
  let ?truths = "map (\<lambda>t. ''y_'' @ t) (target_column_name self)"
  have all: "list_all (\<lambda>l. l \<in> set (map fst (df_columns df))) ?truths"
    using assms by (auto simp: extract_truth_def Let_def df_getitem_def bindE_def split: if_splits)
  let ?ydf = "\<lparr>df_len = df_len df,
      df_columns = concat (map (\<lambda>l. filter (\<lambda>c. fst c = l) (df_columns df)) ?truths)\<rparr>"
  have g: "df_getitem df ?truths = Inr ?ydf" using all by (simp add: df_getitem_def)
  have y: "y = Some ?ydf"
    using assms unfolding extract_truth_def Let_def by (simp add: g)
  have "length ?truths \<le> length (df_columns ?ydf)"
    using all length_concat_filter [of ?truths "df_columns df"] by (simp add: list_all_iff)
  then show ?thesis using y by simp
qed

lemma extract_truth_NdArray:
  "extract_truth self (NdArray a) =
     Inr (getitem_upto a (int (ncols a) - int (length (target_column_name self))), None)"
  by (simp add: extract_truth_def Let_def shape1_def)

lemma predict_submission_unfold:
  assumes "extract_truth self X_array = Inr (X, y)"
    and "regressors (NdArray X) = (weights, types, params)"
    and "ncols types \<le> max_dists self"
    and "0 < length (target_column_name self)"
  shows "predict_submission self regressors X_array =
           bindE (final_weights (length (target_column_name self))
                    (ncols types div length (target_column_name self)) y weights types params)
             (\<lambda>w'. pack_record (length (target_column_name self)) (ncols types)
                      (ncols types div length (target_column_name self)) w' types params)"
  using assms by (simp add: predict_submission_def Let_def)

section \<open>Properties of predict_submission\<close>

lemma predict_submission_layout:
  assumes T: "0 < length (target_column_name self)"
    and ex: "extract_truth self X_array = Inr (X, y)"
    and reg: "regressors (NdArray X) = (weights, types, params)"
    and wf: "well_formed n (length (target_column_name self)) k (weights, types, params)"
    and md: "k * length (target_column_name self) \<le> max_dists self"
    and fw: "final_weights (length (target_column_name self)) k y weights types params = Inr w'"
    and w': "rectangular w'" "len w' = n" "ncols w' = k * length (target_column_name self)"
  shows "\<exists>rec. predict_submission self regressors X_array = Inr rec \<and>
           ncols rec = length (target_column_name self) * (4 * k + 1) \<and> len rec = n \<and>
           (\<forall>r<n. \<forall>d<length (target_column_name self).
              rows rec ! r ! (d * (4 * k + 1)) = Some (Fin (real k)) \<and>
              (\<forall>c<k. rows rec ! r ! (d * (4 * k + 1) + 1 + c) = Some (rows w' ! r ! (d * k + c)) \<and>
                      rows rec ! r ! (d * (4 * k + 1) + 1 + k + c) =
                        Some (Fin (rows types ! r ! (d * k + c)))) \<and>
              (\<forall>m<2 * k. rows rec ! r ! (d * (4 * k + 1) + 1 + 2 * k + m) =
                        Some (Fin (rows params ! r ! (d * (2 * k) + m)))))"
proof -
  let ?T = "length (target_column_name self)"
  from wf have t: "rectangular types" "len types = n" "ncols types = k * ?T"
    and p: "rectangular params" "len params = n" "ncols params = 2 * k * ?T"
    by (simp_all add: well_formed_def)
  have kd: "k * ?T div ?T = k" using T by simp
  have md': "ncols types \<le> max_dists self" using md t(3) by simp
  have "predict_submission self regressors X_array =
          pack_record ?T (k * ?T) k w' types params"
    unfolding predict_submission_unfold [where regressors = regressors, OF ex reg md' T]
    by (simp only: t(3) kd fw bindE_Inr)
  then show ?thesis
    using pack_record_layout [OF T w' t p] by simp
qed

lemma final_weights_other:
  "ndarray_any types \<Longrightarrow> final_weights T k y weights types params = Inr (map_array Fin weights)"
  by (simp add: final_weights_def)

lemma final_weights_gaussian:
  assumes T: "0 < length (target_column_name self)"
    and ex: "extract_truth self (DataFrame df) = Inr (X, Some ydf)"
    and wf: "well_formed n (length (target_column_name self)) k (weights, types, params)"
    and g: "\<not> ndarray_any types"
    and n: "0 < n" "df_len df = n"
  shows "\<exists>w'. final_weights (length (target_column_name self)) k (Some ydf) weights types params =
                 Inr w' \<and>
           rectangular w' \<and> len w' = n \<and> ncols w' = k * length (target_column_name self) \<and>
           (\<forall>r<n. \<forall>d<length (target_column_name self). \<forall>c<k.
              rows w' ! r ! (d * k + c) =
                written_weight k (rows (df_values ydf) ! r) (rows params ! r) (rows weights ! r) d c)"
proof -
  let ?T = "length (target_column_name self)"
  from extract_truth_DataFrame [OF ex]
  have y: "df_len ydf = n" "?T \<le> length (df_columns ydf)"
    using n(2) by auto
  from wf have w: "rectangular weights" "len weights = n" "ncols weights = k * ?T"
    and t: "len types = n"
    and p: "rectangular params" "len params = n" "ncols params = 2 * k * ?T"
    by (simp_all add: well_formed_def)
  have "final_weights ?T k (Some ydf) weights types params =
          normalize_weights ?T k (Some ydf) weights types params"
    using g by (simp add: final_weights_def)
  then show ?thesis
    using normalize_weights_cells [OF T w t p n(1) y(1) y(2)] by simp
qed

lemma predict_submission_gaussian:
  assumes T: "0 < length (target_column_name self)"
    and ex: "extract_truth self (DataFrame df) = Inr (X, Some ydf)"
    and reg: "regressors (NdArray X) = (weights, types, params)"
    and wf: "well_formed n (length (target_column_name self)) k (weights, types, params)"
    and md: "k * length (target_column_name self) \<le> max_dists self"
    and g: "\<not> ndarray_any types"
    and n: "0 < n" "df_len df = n"
  shows "\<exists>rec. predict_submission self regressors (DataFrame df) = Inr rec \<and>
           (\<forall>r<n. \<forall>d<length (target_column_name self). \<forall>c<k.
              rows rec ! r ! (d * (4 * k + 1) + 1 + c) =
                Some (written_weight k (rows (df_values ydf) ! r) (rows params ! r)
                        (rows weights ! r) d c))"
proof -
  from final_weights_gaussian [OF T ex wf g n]
  obtain w' where fw: "final_weights (length (target_column_name self)) k (Some ydf) weights types
        params = Inr w'"
    and w': "rectangular w'" "len w' = n" "ncols w' = k * length (target_column_name self)"
    and c: "\<forall>r<n. \<forall>d<length (target_column_name self). \<forall>c<k.
              rows w' ! r ! (d * k + c) =
                written_weight k (rows (df_values ydf) ! r) (rows params ! r) (rows weights ! r) d c"
    by blast
  from predict_submission_layout [where regressors = regressors, OF T ex reg wf md fw w']
  obtain rec where r: "predict_submission self regressors (DataFrame df) = Inr rec"
    and l: "\<forall>r<n. \<forall>d<length (target_column_name self). \<forall>c<k.
              rows rec ! r ! (d * (4 * k + 1) + 1 + c) = Some (rows w' ! r ! (d * k + c))"
    by blast
  show ?thesis
    apply (rule exI [of _ rec])
    using r l c by simp
qed



lemma ex_truth_row:
  "rows (df_values \<lparr>df_len = Suc 0, df_columns = [(''y_a'', [a]), (''y_b'', [b])]\<rparr>) ! 0 =
     [a, b]"
  by (simp add: df_values_def)

lemma extract_ex_array: "extract_truth ex_self ex_array = Inr (\<lparr>ncols = 1, rows = [[5]]\<rparr>, None)"
  by (simp add: extract_truth_NdArray ex_self_def ex_array_def getitem_upto_def)

lemma extract_ex_frame:
  "extract_truth ex_self ex_frame =
     Inr (\<lparr>ncols = 1, rows = [[5]]\<rparr>,
          Some \<lparr>df_len = 1, df_columns = [(''y_a'', [0]), (''y_b'', [0])]\<rparr>)"
  by (simp add: extract_truth_def ex_self_def ex_frame_def getitem_upto_def shape1_def
      df_getitem_def df_drop_def hstack_def df_values_def)

lemma ex_gaussian_facts:
  "(2::nat) = length (target_column_name ex_self)"
  "extract_truth ex_self (DataFrame \<lparr>df_len = 1,
      df_columns = [(''x'', [5]), (''y_a'', [0]), (''y_b'', [0])]\<rparr>) =
     Inr (\<lparr>ncols = 1, rows = [[5]]\<rparr>,
          Some \<lparr>df_len = 1, df_columns = [(''y_a'', [0]), (''y_b'', [0])]\<rparr>)"
  "df_len \<lparr>df_len = 1, df_columns = [(''x'', [5::real]), (''y_a'', [0]), (''y_b'', [0])]\<rparr> = 1"
  "1 * 2 \<le> max_dists ex_self" "2 * 2 \<le> max_dists ex_self"
  using extract_ex_frame by (simp_all add: ex_frame_def ex_self_def)

lemma spec_example_value:
  "spec_conditional_weight 2 [1/2, 1/2, 1/2, 1/2] [0, 1, 1, 1, 0, 1, 0, 1] [0, 0] 0 1 =
     1 / (1 + exp (- (1/2)))"
proof -
  define A :: real where "A = - ln (sqrt (2 * pi))"
  have E0: "spec_exclusion 2 [0, 1, 1, 1, 0, 1, 0, 1] [0, 0] 0 1 = A"
    by (simp add: spec_exclusion_def spec_log_density_def A_def)
  have E1: "spec_exclusion 2 [0, 1, 1, 1, 0, 1, 0, 1] [0, 0] 1 1 = A + (- (1/2))"
    by (simp add: spec_exclusion_def spec_log_density_def A_def)
  have s2: "(\<Sum>j<2. f j) = f 0 + f (1::nat)" for f :: "nat \<Rightarrow> real"
    by (simp add: numeral_2_eq_2)
  have "spec_conditional_weight 2 [1/2, 1/2, 1/2, 1/2] [0, 1, 1, 1, 0, 1, 0, 1] [0, 0] 0 1 =
      (1/2) * exp A / ((1/2) * exp A + (1/2) * (exp A * exp (- (1/2))))"
    unfolding spec_conditional_weight_def s2 E0 E1 exp_add by simp
  also have "\<dots> = 1 / (1 + exp (- (1/2)))"
  proof -
    have "(1/2) * exp A / ((1/2) * exp A + (1/2) * (exp A * exp (- (1/2)))) =
          ((1/2) * exp A * 1) / ((1/2) * exp A * (1 + exp (- (1/2))))"
      by (simp add: algebra_simps)
    also have "\<dots> = 1 / (1 + exp (- (1/2)))"
      by (rule mult_divide_mult_cancel_left) simp
    finally show ?thesis .
  qed
  finally show ?thesis .
qed

lemma spec_example_bound: "1 / 2 < 1 / (1 + exp (- (1/2) :: real))"
proof -
  have lt: "1 + exp (- (1/2) :: real) < 2" by simp
  have pos: "0 < 2 * (1 + exp (- (1/2) :: real))"
    by (simp add: add_pos_pos)
  show ?thesis
    by (rule divide_strict_left_mono [OF lt zero_less_one pos])
qed

lemma setitem_strided_Inr:
  assumes "setitem_strided result s st src = Inr res"
  shows "ncols res = ncols result" "len res = len result"
    "ncols src = slice_len (ncols result) s st \<or> ncols src = 1"
  using assms by (auto simp: setitem_strided_def Let_def len_def split: if_splits)

lemma setitem_strided_Inl: "setitem_strided result s st src = Inl e \<Longrightarrow> e = ValueError"
  by (auto simp: setitem_strided_def Let_def split: if_splits)

lemma assign_loop_Inr:
  "assign_loop js off stp st src result = Inr res \<Longrightarrow>
     ncols res = ncols result \<and> len res = len result"
proof (induction js arbitrary: result)
  case Nil
  then show ?case by simp
next
  case (Cons i js)
  show ?case
  proof (cases "setitem_strided result i stp (getitem_strided src (i - off) st)")
    case (Inl e)
    then show ?thesis using Cons.prems by simp
  next
    case (Inr r1)
    then have "assign_loop js off stp st src r1 = Inr res" using Cons.prems by simp
    from Cons.IH [OF this] setitem_strided_Inr(1,2) [OF Inr]
    show ?thesis by simp
  qed
qed

lemma assign_loop_Inl:
  "assign_loop js off stp st src result = Inl e \<Longrightarrow> e = ValueError"
proof (induction js arbitrary: result)
  case Nil
  then show ?case by simp
next
  case (Cons i js)
  show ?case
  proof (cases "setitem_strided result i stp (getitem_strided src (i - off) st)")
    case (Inl e')
    then show ?thesis using Cons.prems setitem_strided_Inl [OF Inl] by simp
  next
    case (Inr r1)
    then have "assign_loop js off stp st src r1 = Inl e" using Cons.prems by simp
    then show ?thesis by (rule Cons.IH)
  qed
qed

lemma slice_len_start_mono: "slice_len n s st \<le> slice_len n 0 st"
  unfolding slice_len_def by (rule div_le_mono) simp

lemma slice_len_indivisible:
  assumes "0 < T" "W mod T \<noteq> 0" "T \<le> W"
  shows "T < slice_len W 0 (W div T)"
proof -
  let ?q = "W div T"
  have q: "0 < ?q" using assms by (simp add: div_greater_zero_iff)
  have "W = ?q * T + W mod T" by simp
  then have "?q * T + 1 \<le> W" using assms(2) by linarith
  then have "?q * Suc T \<le> W + (?q - 1)" using q by simp
  then have "Suc T \<le> (W + (?q - 1)) div ?q"
    using q by (simp add: less_eq_div_iff_mult_less_eq mult.commute)
  then show ?thesis by (simp add: slice_len_def)
qed

lemma pack_record_indivisible:
  assumes T: "0 < T" and nd: "ncols t mod T \<noteq> 0" and le: "T \<le> ncols t"
  shows "pack_record T (ncols t) (ncols t div T) w t p = Inl ValueError"
proof -
  define q where "q = ncols t div T"
  define stp where "stp = (ncols w + ncols t + ncols p + T) div T"
  define tot where "tot = T + (ncols w + ncols t + ncols p)"
  define sizes :: "fl ndarray"
    where "sizes = \<lparr>ncols = T, rows = replicate (len t) (replicate T (Fin (real q)))\<rparr>"
  define r0 :: "fl option ndarray"
    where "r0 = \<lparr>ncols = tot, rows = replicate (len t) (replicate tot None)\<rparr>"
  define rest where "rest = (\<lambda>result.
      bindE (assign_loop [1..<q + 1] 1 stp q w result) (\<lambda>result.
      bindE (assign_loop [1 + q..<q + (1 + q)] (1 + q) stp q (map_array Fin t) result) (\<lambda>result.
      assign_loop [1 + q + q..<ncols p div T + (1 + q + q)] (1 + q + q) stp
        (ncols p div T) (map_array Fin p) result)))"
  have pk: "pack_record T (ncols t) (ncols t div T) w t p =
      bindE (setitem_strided r0 0 stp sizes) rest"
    unfolding pack_record_def Let_def rest_def r0_def sizes_def tot_def stp_def q_def ..
  have q0: "0 < q" unfolding q_def using T le by (simp add: div_greater_zero_iff)
  have T1: "T \<noteq> 1" using nd by auto
  have big: "T < slice_len (ncols t) 0 q"
    unfolding q_def using T nd le by (rule slice_len_indivisible)
  show ?thesis
  proof (cases "setitem_strided r0 0 stp sizes")
    case (Inl e)
    then show ?thesis using setitem_strided_Inl [OF Inl] pk by simp
  next
    case (Inr r1)
    from setitem_strided_Inr [OF Inr]
    have n1: "ncols r1 = tot" and s1: "T = slice_len tot 0 stp"
      using T1 by (simp_all add: r0_def sizes_def)
    show ?thesis
    proof (cases "assign_loop [1..<q + 1] 1 stp q w r1")
      case (Inl e)
      then show ?thesis using assign_loop_Inl [OF Inl] pk Inr by (simp add: rest_def)
    next
      case r2: (Inr r2)
      from assign_loop_Inr [OF r2] have n2: "ncols r2 = tot" using n1 by simp
      have rng: "[1 + q..<q + (1 + q)] = (1 + q) # [Suc (1 + q)..<q + (1 + q)]"
        using q0 by (intro upt_conv_Cons) simp
      have dst: "slice_len (ncols r2) (1 + q) stp \<le> T"
        unfolding n2 s1 by (rule slice_len_start_mono)
      have src: "ncols (getitem_strided (map_array Fin t) (1 + q - (1 + q)) q) = slice_len (ncols t) 0 q"
        by simp
      have "setitem_strided r2 (1 + q) stp
              (getitem_strided (map_array Fin t) (1 + q - (1 + q)) q) = Inl ValueError"
        unfolding setitem_strided_def Let_def src using big dst T by auto
      then have "assign_loop [1 + q..<q + (1 + q)] (1 + q) stp q (map_array Fin t) r2 =
          Inl ValueError"
        unfolding rng by simp
      then show ?thesis using pk Inr r2 by (simp add: rest_def)
    qed
  qed
qed

lemma normalize_weights_unbound:
  "normalize_weights T k None weights types params = Inl UnboundLocalError"
  by (simp add: normalize_weights_def Let_def)

section \<open>Properties of step\<close>

lemma concat_single: "length xs = 1 \<Longrightarrow> concat xs = xs ! 0"
  by (cases xs) simp_all

lemma step_single_row_value:
  assumes T: "0 < length (target_column_name self)"
    and one: "shape0 X_array = 1"
    and reg: "reg X_array = (weights, types, params)"
    and wf: "well_formed 1 (length (target_column_name self)) k (weights, types, params)"
    and k: "0 < k"
    and nonneg: "\<forall>x\<in>set (take k (rows weights ! 0)). 0 \<le> x"
    and total: "\<bar>sum_list (take k (rows weights ! 0)) - 1\<bar> \<le> 1 / 2 ^ 26"
    and seed: "check_random_state ops global_state random_state = Inr g"
    and choice: "draw_choice ops g k (take k (rows weights ! 0)) = (c, g1)"
    and c: "c < k"
    and normal: "draw_multivariate_normal ops g1
        (map (\<lambda>d. rows params ! 0 ! (2 * (d * k + c))) [0..<length (target_column_name self)])
        (diag (map (\<lambda>d. (rows params ! 0 ! (2 * (d * k + c) + 1))\<^sup>2)
                 [0..<length (target_column_name self)])) = (v, g2)"
  shows "step self reg ops X_array random_state global_state =
           Inr (\<lparr>ncols = length v, rows = [v]\<rparr>, g2,
                case random_state of RS_None \<Rightarrow> g2 | _ \<Rightarrow> global_state)"
proof -
  let ?T = "length (target_column_name self)"
  from wf have w: "rectangular weights" "len weights = 1" "ncols weights = k * ?T"
    and p: "rectangular params" "len params = 1" "ncols params = 2 * k * ?T"
    by (simp_all add: well_formed_def)
  have lw: "length (rows weights ! 0) = k * ?T"
    using rectangular_nth [OF w(1), of 0] w by simp
  have kT: "k \<le> k * ?T" using T by (cases "?T") simp_all
  have r0: "reshape_row0 weights ?T = Inr (take k (rows weights ! 0))"
    using T w concat_single [of "rows weights"]
    by (simp add: reshape_row0_def Let_def len_def)
  have pc: "ncols params = (k * ?T) * 2" using p(3) by (simp add: mult.commute)
  have nm: "slice_len (ncols params) 0 2 = k * ?T"
    unfolding pc by (rule slice_len_block) simp
  have ns: "slice_len (ncols params) 1 2 = k * ?T"
    unfolding pc by (rule slice_len_block) simp
  have r3: "reshape3 (getitem_strided params s 2) 1 ?T =
      Inr (k, map (\<lambda>m. rows params ! 0 ! (s + m * 2)) [0..<k * ?T])"
    if "slice_len (ncols params) s 2 = k * ?T" for s
  proof -
    have l: "len (getitem_strided params s 2) = 1" using p(2) by simp
    have "concat (rows (getitem_strided params s 2)) = rows (getitem_strided params s 2) ! 0"
      using l by (intro concat_single) (simp add: len_def)
    also have "\<dots> = map (\<lambda>m. rows params ! 0 ! (s + m * 2)) [0..<k * ?T]"
      using p(2) that by (simp add: rows_getitem_strided)
    finally show ?thesis
      using T l that by (simp add: reshape3_def Let_def)
  qed
  have ch: "rng_choice ops g (length (take k (rows weights ! 0))) (take k (rows weights ! 0)) =
      Inr (c, g1)"
    using k kT lw nonneg total choice
    by (auto simp: rng_choice_def list_ex_iff not_less min_def)
  have comp: "getitem_component (k, map (\<lambda>m. rows params ! 0 ! (s + m * 2)) [0..<k * ?T]) ?T c =
      Inr (map (\<lambda>d. rows params ! 0 ! (s + (d * k + c) * 2)) [0..<?T])" for s
  proof -
    have "d * k + c < k * ?T" if "d < ?T" for d
      using block_bound [OF that c] by (simp add: mult.commute)
    then show ?thesis using c by (simp add: getitem_component_def)
  qed
  have m1: "map (\<lambda>d. rows params ! 0 ! (0 + (d * k + c) * 2)) [0..<?T] =
      map (\<lambda>d. rows params ! 0 ! (2 * (d * k + c))) [0..<?T]"
    by (simp add: mult.commute)
  have m2: "map (\<lambda>s. s\<^sup>2) (map (\<lambda>d. rows params ! 0 ! (1 + (d * k + c) * 2)) [0..<?T]) =
      map (\<lambda>d. (rows params ! 0 ! (2 * (d * k + c) + 1))\<^sup>2) [0..<?T]"
    by (simp add: mult.commute add.commute)
  show ?thesis
    unfolding step_def seed Let_def one reg prod.case r0 r3 [OF nm] r3 [OF ns] bindE_Inr ch comp
      m1 m2 normal
    by simp
qed
section \<open>The reconstruction on the example inputs\<close>





section \<open>The claims\<close>

text \<open>
  Claim C2. For a prediction with \<open>n_targets\<close> target dimensions and \<open>k\<close> components per
  dimension the call returns a record matrix whose rows consist of \<open>n_targets\<close> blocks
  of \<open>4 k + 1\<close> columns, the stride computed by the code. The block of dimension \<open>d\<close>
  starts at column \<open>d (4 k + 1)\<close> and holds the component count \<open>k\<close>, then the \<open>k\<close>
  weights of dimension \<open>d\<close> as they leave the reconstruction step (the array returned by
  \<open>final_weights\<close>), then the \<open>k\<close> type codes of dimension \<open>d\<close>, then the \<open>2 k\<close>
  interleaved means and standard deviations of dimension \<open>d\<close>, the last two copied from
  the arrays of the regressor. A prediction with all type codes zero needs a data
  frame as input and at least one sample.
\<close>

theorem record_layout:
  assumes "n_targets = length (target_column_name self)" and "0 < n_targets"
    and "extract_truth self X_array = Inr (X, y)"
    and "regressors (NdArray X) = (weights, types, params)"
    and "well_formed n n_targets k (weights, types, params)"
    and "k * n_targets \<le> max_dists self"
    and "ndarray_any types \<or> (0 < n \<and> (\<exists>df. X_array = DataFrame df \<and> df_len df = n))"
  shows "\<exists>rec w'. predict_submission self regressors X_array = Inr rec \<and>
           final_weights n_targets k y weights types params = Inr w' \<and>
           ncols rec = n_targets * (4 * k + 1) \<and> len rec = n \<and>
           (\<forall>r<n. \<forall>d<n_targets.
              rows rec ! r ! (d * (4 * k + 1)) = Some (Fin (real k)) \<and>
              (\<forall>c<k. rows rec ! r ! (d * (4 * k + 1) + 1 + c) = Some (rows w' ! r ! (d * k + c)) \<and>
                      rows rec ! r ! (d * (4 * k + 1) + 1 + k + c) =
                        Some (Fin (rows types ! r ! (d * k + c)))) \<and>
              (\<forall>m<2 * k. rows rec ! r ! (d * (4 * k + 1) + 1 + 2 * k + m) =
                        Some (Fin (rows params ! r ! (d * (2 * k) + m)))))"
proof -
  note T = assms(2) [unfolded assms(1)]
  note ex = assms(3) and reg = assms(4)
  note wf = assms(5) [unfolded assms(1)] and md = assms(6) [unfolded assms(1)]
  have "\<exists>w'. final_weights (length (target_column_name self)) k y weights types params = Inr w' \<and>
           rectangular w' \<and> len w' = n \<and> ncols w' = k * length (target_column_name self)"
  proof (cases "ndarray_any types")
    case True
    from wf have "rectangular weights" "len weights = n"
      "ncols weights = k * length (target_column_name self)"
      by (simp_all add: well_formed_def)
    then show ?thesis using final_weights_other [OF True] by simp
  next
    case False
    with assms(7) obtain df where df: "X_array = DataFrame df" "0 < n" "df_len df = n"
      by blast
    from extract_truth_DataFrame [OF ex [unfolded df(1)]]
    obtain ydf where y: "y = Some ydf" by blast
    from final_weights_gaussian [OF T ex [unfolded df(1) y] wf False df(2) df(3)]
    show ?thesis unfolding y by blast
  qed
  then obtain w' where fw: "final_weights (length (target_column_name self)) k y weights types params = Inr w'"
    and w': "rectangular w'" "len w' = n" "ncols w' = k * length (target_column_name self)"
    by blast
  from predict_submission_layout [where regressors = regressors, OF T ex reg wf md fw w'] fw
  show ?thesis unfolding assms(1) by blast
qed

theorem record_layout_witness:
  "\<exists>rec w'. predict_submission ex_self ex_gauss ex_frame = Inr rec \<and>
     final_weights 2 1 (Some \<lparr>df_len = 1, df_columns = [(''y_a'', [0]), (''y_b'', [0])]\<rparr>)
       \<lparr>ncols = 2, rows = [[1, 1]]\<rparr> \<lparr>ncols = 2, rows = [[0, 0]]\<rparr>
       \<lparr>ncols = 4, rows = [[0, 1, 3, 2]]\<rparr> = Inr w' \<and>
     ncols rec = 10 \<and> len rec = 1 \<and>
     rows rec ! 0 ! 0 = Some (Fin 1) \<and> rows rec ! 0 ! 1 = Some (rows w' ! 0 ! 0) \<and>
     rows rec ! 0 ! 2 = Some (Fin 0) \<and> rows rec ! 0 ! 3 = Some (Fin 0) \<and>
     rows rec ! 0 ! 4 = Some (Fin 1) \<and>
     rows rec ! 0 ! 5 = Some (Fin 1) \<and> rows rec ! 0 ! 6 = Some (rows w' ! 0 ! 1) \<and>
     rows rec ! 0 ! 7 = Some (Fin 0) \<and> rows rec ! 0 ! 8 = Some (Fin 3) \<and>
     rows rec ! 0 ! 9 = Some (Fin 2)"
proof -
  have h1: "(2::nat) = length (target_column_name ex_self)" by (simp add: ex_self_def)
  have h2: "(0::nat) < 2" by simp
  have h4: "ex_gauss (NdArray \<lparr>ncols = 1, rows = [[5]]\<rparr>) =
      (\<lparr>ncols = 2, rows = [[1, 1]]\<rparr>, \<lparr>ncols = 2, rows = [[0, 0]]\<rparr>,
       \<lparr>ncols = 4, rows = [[0, 1, 3, 2]]\<rparr>)"
    by (simp add: ex_gauss_def)
  have h5: "well_formed 1 2 1 (\<lparr>ncols = 2, rows = [[1, 1]]\<rparr>, \<lparr>ncols = 2, rows = [[0, 0]]\<rparr>,
       \<lparr>ncols = 4, rows = [[0, 1, 3, 2::real]]\<rparr>)"
    by (simp add: well_formed_def rectangular_def len_def)
  have h6: "1 * 2 \<le> max_dists ex_self" by (simp add: ex_self_def)
  have h7: "ndarray_any \<lparr>ncols = 2, rows = [[0, 0]]\<rparr> \<or>
      (0 < (1::nat) \<and> (\<exists>df. ex_frame = DataFrame df \<and> df_len df = 1))"
    by (simp add: ex_frame_def)
  from record_layout [where regressors = ex_gauss, OF h1 h2 extract_ex_frame h4 h5 h6 h7]
  obtain rec w' where r: "predict_submission ex_self ex_gauss ex_frame = Inr rec"
    and f: "final_weights 2 1 (Some \<lparr>df_len = 1, df_columns = [(''y_a'', [0]), (''y_b'', [0])]\<rparr>)
       \<lparr>ncols = 2, rows = [[1, 1]]\<rparr> \<lparr>ncols = 2, rows = [[0, 0]]\<rparr>
       \<lparr>ncols = 4, rows = [[0, 1, 3, 2]]\<rparr> = Inr w'"
    and s: "ncols rec = 2 * (4 * 1 + 1)" "len rec = 1"
    and c: "\<forall>r<1. \<forall>d<2.
              rows rec ! r ! (d * (4 * 1 + 1)) = Some (Fin (real (1::nat))) \<and>
              (\<forall>c<1. rows rec ! r ! (d * (4 * 1 + 1) + 1 + c) = Some (rows w' ! r ! (d * 1 + c)) \<and>
                      rows rec ! r ! (d * (4 * 1 + 1) + 1 + 1 + c) =
                        Some (Fin (rows \<lparr>ncols = 2, rows = [[0, 0::real]]\<rparr> ! r ! (d * 1 + c)))) \<and>
              (\<forall>m<2 * 1. rows rec ! r ! (d * (4 * 1 + 1) + 1 + 2 * 1 + m) =
                        Some (Fin (rows \<lparr>ncols = 4, rows = [[0, 1, 3, 2::real]]\<rparr> ! r ! (d * (2 * 1) + m))))"
    by blast
  have b: "(0::nat) < 1" "(0::nat) < 2" "(1::nat) < 2" "(0::nat) < 2 * 1" "(1::nat) < 2 * 1"
    by simp_all
  note d0 = c [rule_format, OF b(1) b(2)]
  note d1 = c [rule_format, OF b(1) b(3)]
  have c0: "rows rec ! 0 ! 0 = Some (Fin 1)" "rows rec ! 0 ! 1 = Some (rows w' ! 0 ! 0)"
    "rows rec ! 0 ! 2 = Some (Fin 0)" "rows rec ! 0 ! 3 = Some (Fin 0)"
    "rows rec ! 0 ! 4 = Some (Fin 1)"
    using d0 [THEN conjunct1]
      d0 [THEN conjunct2, THEN conjunct1, rule_format, OF b(1)]
      d0 [THEN conjunct2, THEN conjunct2, rule_format, OF b(4)]
      d0 [THEN conjunct2, THEN conjunct2, rule_format, OF b(5)]
    by (simp_all add: eval_nat_numeral)
  have c1: "rows rec ! 0 ! 5 = Some (Fin 1)" "rows rec ! 0 ! 6 = Some (rows w' ! 0 ! 1)"
    "rows rec ! 0 ! 7 = Some (Fin 0)" "rows rec ! 0 ! 8 = Some (Fin 3)"
    "rows rec ! 0 ! 9 = Some (Fin 2)"
    using d1 [THEN conjunct1]
      d1 [THEN conjunct2, THEN conjunct1, rule_format, OF b(1)]
      d1 [THEN conjunct2, THEN conjunct2, rule_format, OF b(4)]
      d1 [THEN conjunct2, THEN conjunct2, rule_format, OF b(5)]
    by (simp_all add: eval_nat_numeral)
  show ?thesis
    apply (rule exI [of _ rec], rule exI [of _ w'])
    using r f s c0 c1 by simp
qed

text \<open>
  Claim C9. When at least one type code of the prediction is not zero, the weights
  written into the record are the weights returned by the regressor, unchanged, and
  the type codes and the parameters are placed into the record unchanged as well.
\<close>

theorem other_types_pass_through:
  assumes "n_targets = length (target_column_name self)" and "0 < n_targets"
    and "extract_truth self X_array = Inr (X, y)"
    and "regressors (NdArray X) = (weights, types, params)"
    and "well_formed n n_targets k (weights, types, params)"
    and "k * n_targets \<le> max_dists self"
    and "ndarray_any types"
  shows "\<exists>rec. predict_submission self regressors X_array = Inr rec \<and> len rec = n \<and>
           (\<forall>r<n. \<forall>d<n_targets.
              (\<forall>c<k. rows rec ! r ! (d * (4 * k + 1) + 1 + c) =
                        Some (Fin (rows weights ! r ! (d * k + c))) \<and>
                      rows rec ! r ! (d * (4 * k + 1) + 1 + k + c) =
                        Some (Fin (rows types ! r ! (d * k + c)))) \<and>
              (\<forall>m<2 * k. rows rec ! r ! (d * (4 * k + 1) + 1 + 2 * k + m) =
                        Some (Fin (rows params ! r ! (d * (2 * k) + m)))))"
proof -
  note T = assms(2) [unfolded assms(1)]
  note ex = assms(3) and reg = assms(4)
  note wf = assms(5) [unfolded assms(1)] and md = assms(6) [unfolded assms(1)]
  let ?T = "length (target_column_name self)"
  from wf have w: "rectangular weights" "len weights = n" "ncols weights = k * ?T"
    by (simp_all add: well_formed_def)
  have fw: "final_weights ?T k y weights types params = Inr (map_array Fin weights)"
    using assms(7) by (rule final_weights_other)
  have w': "rectangular (map_array Fin weights)" "len (map_array Fin weights) = n"
    "ncols (map_array Fin weights) = k * ?T"
    using w by simp_all
  from predict_submission_layout [where regressors = regressors, OF T ex reg wf md fw w']
  obtain rec where r: "predict_submission self regressors X_array = Inr rec" "len rec = n"
    and c: "\<forall>r<n. \<forall>d<?T.
              rows rec ! r ! (d * (4 * k + 1)) = Some (Fin (real k)) \<and>
              (\<forall>c<k. rows rec ! r ! (d * (4 * k + 1) + 1 + c) =
                        Some (rows (map_array Fin weights) ! r ! (d * k + c)) \<and>
                      rows rec ! r ! (d * (4 * k + 1) + 1 + k + c) =
                        Some (Fin (rows types ! r ! (d * k + c)))) \<and>
              (\<forall>m<2 * k. rows rec ! r ! (d * (4 * k + 1) + 1 + 2 * k + m) =
                        Some (Fin (rows params ! r ! (d * (2 * k) + m))))"
    by blast
  have m: "rows (map_array Fin weights) ! r ! (d * k + c) = Fin (rows weights ! r ! (d * k + c))"
    if "r < n" "d < ?T" "c < k" for r d c
  proof -
    have "d * k + c < ncols weights"
      using block_bound [OF that(2) that(3)] w(3) by (simp add: mult.commute)
    then show ?thesis using w that(1) by (intro rows_map_array) simp_all
  qed
  show ?thesis
    unfolding assms(1)
    apply (rule exI [of _ rec])
    using r c m by simp
qed

theorem other_types_pass_through_witness:
  "\<exists>rec. predict_submission ex_self ex_mixed ex_array = Inr rec \<and> len rec = 1 \<and>
     rows rec ! 0 ! 1 = Some (Fin 1) \<and> rows rec ! 0 ! 2 = Some (Fin 0) \<and>
     rows rec ! 0 ! 3 = Some (Fin 0) \<and> rows rec ! 0 ! 4 = Some (Fin 1) \<and>
     rows rec ! 0 ! 6 = Some (Fin 1) \<and> rows rec ! 0 ! 7 = Some (Fin 1) \<and>
     rows rec ! 0 ! 8 = Some (Fin 3) \<and> rows rec ! 0 ! 9 = Some (Fin 2)"
proof -
  have h1: "(2::nat) = length (target_column_name ex_self)" by (simp add: ex_self_def)
  have h2: "(0::nat) < 2" by simp
  have h4: "ex_mixed (NdArray \<lparr>ncols = 1, rows = [[5]]\<rparr>) =
      (\<lparr>ncols = 2, rows = [[1, 1]]\<rparr>, \<lparr>ncols = 2, rows = [[0, 1]]\<rparr>,
       \<lparr>ncols = 4, rows = [[0, 1, 3, 2]]\<rparr>)"
    by (simp add: ex_mixed_def)
  have h5: "well_formed 1 2 1 (\<lparr>ncols = 2, rows = [[1, 1]]\<rparr>, \<lparr>ncols = 2, rows = [[0, 1]]\<rparr>,
       \<lparr>ncols = 4, rows = [[0, 1, 3, 2::real]]\<rparr>)"
    by (simp add: well_formed_def rectangular_def len_def)
  have h6: "1 * 2 \<le> max_dists ex_self" by (simp add: ex_self_def)
  have h7: "ndarray_any \<lparr>ncols = 2, rows = [[0, 1]]\<rparr>" by (simp add: ndarray_any_def)
  from other_types_pass_through [where regressors = ex_mixed, OF h1 h2 extract_ex_array h4 h5 h6 h7]
  obtain rec where r: "predict_submission ex_self ex_mixed ex_array = Inr rec" "len rec = 1"
    and c: "\<forall>r<1. \<forall>d<2.
              (\<forall>c<1. rows rec ! r ! (d * (4 * 1 + 1) + 1 + c) =
                        Some (Fin (rows \<lparr>ncols = 2, rows = [[1, 1::real]]\<rparr> ! r ! (d * 1 + c))) \<and>
                      rows rec ! r ! (d * (4 * 1 + 1) + 1 + 1 + c) =
                        Some (Fin (rows \<lparr>ncols = 2, rows = [[0, 1::real]]\<rparr> ! r ! (d * 1 + c)))) \<and>
              (\<forall>m<2 * 1. rows rec ! r ! (d * (4 * 1 + 1) + 1 + 2 * 1 + m) =
                        Some (Fin (rows \<lparr>ncols = 4, rows = [[0, 1, 3, 2::real]]\<rparr> ! r ! (d * (2 * 1) + m))))"
    by blast
  have b: "(0::nat) < 1" "(0::nat) < 2" "(1::nat) < 2" "(0::nat) < 2 * 1" "(1::nat) < 2 * 1"
    by simp_all
  note d0 = c [rule_format, OF b(1) b(2)]
  note d1 = c [rule_format, OF b(1) b(3)]
  have c0: "rows rec ! 0 ! 1 = Some (Fin 1)"
    "rows rec ! 0 ! 2 = Some (Fin 0)" "rows rec ! 0 ! 3 = Some (Fin 0)"
    "rows rec ! 0 ! 4 = Some (Fin 1)"
    using d0 [THEN conjunct1, rule_format, OF b(1)]
      d0 [THEN conjunct2, rule_format, OF b(4)]
      d0 [THEN conjunct2, rule_format, OF b(5)]
    by (simp_all add: eval_nat_numeral)
  have c1: "rows rec ! 0 ! 6 = Some (Fin 1)"
    "rows rec ! 0 ! 7 = Some (Fin 1)" "rows rec ! 0 ! 8 = Some (Fin 3)"
    "rows rec ! 0 ! 9 = Some (Fin 2)"
    using d1 [THEN conjunct1, rule_format, OF b(1)]
      d1 [THEN conjunct2, rule_format, OF b(4)]
      d1 [THEN conjunct2, rule_format, OF b(5)]
    by (simp_all add: eval_nat_numeral)
  show ?thesis
    apply (rule exI [of _ rec])
    using r c0 c1 by simp
qed







text \<open>
  Claim C4, as amended. The code has no check on the standard deviations and raises
  no error for a non-positive one: for every all-Gaussian prediction the call returns
  a record, and whenever the standard deviation read for a dimension before \<open>d\<close> is
  not positive, every weight written for dimension \<open>d\<close> of that sample is NaN.
\<close>

theorem nonpositive_std_propagates:
  assumes "n_targets = length (target_column_name self)" and "0 < n_targets"
    and "extract_truth self (DataFrame df) = Inr (X, y)"
    and "regressors (NdArray X) = (weights, types, params)"
    and "well_formed n n_targets k (weights, types, params)"
    and "k * n_targets \<le> max_dists self"
    and "\<not> ndarray_any types"
    and "0 < n" and "df_len df = n"
  shows "\<exists>rec. predict_submission self regressors (DataFrame df) = Inr rec \<and>
           (\<forall>r<n. \<forall>d<n_targets. \<forall>c<k.
              (\<exists>i<d. rows params ! r ! (2 * i + 1) \<le> 0) \<longrightarrow>
                rows rec ! r ! (d * (4 * k + 1) + 1 + c) = Some NaN)"
proof -
  note T = assms(2) [unfolded assms(1)]
  note wf = assms(5) [unfolded assms(1)] and md = assms(6) [unfolded assms(1)]
  let ?T = "length (target_column_name self)"
  from extract_truth_DataFrame [OF assms(3)]
  obtain ydf where y: "y = Some ydf" by blast
  from predict_submission_gaussian [where regressors = regressors,
      OF T assms(3) [unfolded y] assms(4) wf md assms(7) assms(8) assms(9)]
  obtain rec where r: "predict_submission self regressors (DataFrame df) = Inr rec"
    and c: "\<forall>r<n. \<forall>d<?T. \<forall>c<k.
              rows rec ! r ! (d * (4 * k + 1) + 1 + c) =
                Some (written_weight k (rows (df_values ydf) ! r) (rows params ! r)
                        (rows weights ! r) d c)"
    by blast
  have "rows rec ! r ! (d * (4 * k + 1) + 1 + c) = Some NaN"
    if rn: "r < n" and d: "d < ?T" and ck: "c < k"
      and bad: "\<exists>i<d. rows params ! r ! (2 * i + 1) \<le> 0" for r d c
  proof -
    from bad obtain i where i: "i < d" "rows params ! r ! (2 * i + 1) \<le> 0" by blast
    have "written_weight k (rows (df_values ydf) ! r) (rows params ! r) (rows weights ! r) d c = NaN"
      using i by (rule written_weight_NaN)
    then show ?thesis using c [rule_format, OF rn d ck] by simp
  qed
  then show ?thesis
    unfolding assms(1) using r by blast
qed

theorem nonpositive_std_propagates_witness:
  "\<exists>rec. predict_submission ex_self ex_degenerate ex_frame = Inr rec \<and>
     rows \<lparr>ncols = 4, rows = [[0, 0, 3, 2::real]]\<rparr> ! 0 ! (2 * 0 + 1) \<le> 0 \<and>
     rows rec ! 0 ! 6 = Some NaN"
proof -
  have h4: "ex_degenerate (NdArray \<lparr>ncols = 1, rows = [[5]]\<rparr>) =
      (\<lparr>ncols = 2, rows = [[1, 1]]\<rparr>, \<lparr>ncols = 2, rows = [[0, 0]]\<rparr>,
       \<lparr>ncols = 4, rows = [[0, 0, 3, 2]]\<rparr>)"
    by (simp add: ex_degenerate_def)
  have h5: "well_formed 1 2 1 (\<lparr>ncols = 2, rows = [[1, 1]]\<rparr>, \<lparr>ncols = 2, rows = [[0, 0]]\<rparr>,
       \<lparr>ncols = 4, rows = [[0, 0, 3, 2::real]]\<rparr>)"
    by (simp add: well_formed_def rectangular_def len_def)
  have h7: "\<not> ndarray_any \<lparr>ncols = 2, rows = [[0, 0]]\<rparr>" by (simp add: ndarray_any_def)
  have b: "(0::nat) < 1" "(0::nat) < 2" "(1::nat) < 2" by simp_all
  from nonpositive_std_propagates [where regressors = ex_degenerate,
      OF ex_gaussian_facts(1) b(2) ex_gaussian_facts(2) h4 h5 ex_gaussian_facts(4) h7 b(1)
         ex_gaussian_facts(3)]
  obtain rec where r: "predict_submission ex_self ex_degenerate ex_frame = Inr rec"
    and c: "\<forall>r<1. \<forall>d<2. \<forall>c<1.
              (\<exists>i<d. rows \<lparr>ncols = 4, rows = [[0, 0, 3, 2::real]]\<rparr> ! r ! (2 * i + 1) \<le> 0) \<longrightarrow>
                rows rec ! r ! (d * (4 * 1 + 1) + 1 + c) = Some NaN"
    unfolding ex_frame_def by blast
  have bad: "rows \<lparr>ncols = 4, rows = [[0, 0, 3, 2::real]]\<rparr> ! 0 ! (2 * 0 + 1) \<le> 0" by simp
  then have "\<exists>i<1. rows \<lparr>ncols = 4, rows = [[0, 0, 3, 2::real]]\<rparr> ! 0 ! (2 * i + 1) \<le> 0"
    by (intro exI [of _ 0]) simp
  from c [rule_format, OF b(1) b(3) b(1) this]
  have e: "rows rec ! 0 ! 6 = Some NaN" by simp
  show ?thesis
    apply (rule exI [of _ rec])
    using r e bad by simp
qed

theorem degenerate_std_counterexample:
  "\<not> isl (predict_submission ex_self ex_degenerate ex_frame) \<and>
   rows (projr (predict_submission ex_self ex_degenerate ex_frame)) ! 0 ! 6 = Some NaN"
proof -
  have h4: "ex_degenerate (NdArray \<lparr>ncols = 1, rows = [[5]]\<rparr>) =
      (\<lparr>ncols = 2, rows = [[1, 1]]\<rparr>, \<lparr>ncols = 2, rows = [[0, 0]]\<rparr>,
       \<lparr>ncols = 4, rows = [[0, 0, 3, 2]]\<rparr>)"
    by (simp add: ex_degenerate_def)
  have h5: "well_formed 1 (length (target_column_name ex_self)) 1
      (\<lparr>ncols = 2, rows = [[1, 1]]\<rparr>, \<lparr>ncols = 2, rows = [[0, 0]]\<rparr>,
       \<lparr>ncols = 4, rows = [[0, 0, 3, 2::real]]\<rparr>)"
    by (simp add: well_formed_def rectangular_def len_def ex_self_def)
  have h7: "\<not> ndarray_any \<lparr>ncols = 2, rows = [[0, 0]]\<rparr>" by (simp add: ndarray_any_def)
  have T: "0 < length (target_column_name ex_self)" by (simp add: ex_self_def)
  have md: "1 * length (target_column_name ex_self) \<le> max_dists ex_self"
    by (simp add: ex_self_def)
  have b: "(0::nat) < 1" "(1::nat) < length (target_column_name ex_self)"
    by (simp_all add: ex_self_def)
  from predict_submission_gaussian [where regressors = ex_degenerate,
      OF T ex_gaussian_facts(2) h4 h5 md h7 b(1) ex_gaussian_facts(3)]
  obtain rec where r: "predict_submission ex_self ex_degenerate ex_frame = Inr rec"
    and c: "\<forall>r<1. \<forall>d<length (target_column_name ex_self). \<forall>c<1.
              rows rec ! r ! (d * (4 * 1 + 1) + 1 + c) =
                Some (written_weight 1
                        (rows (df_values \<lparr>df_len = 1,
                                 df_columns = [(''y_a'', [0]), (''y_b'', [0])]\<rparr>) ! r)
                        (rows \<lparr>ncols = 4, rows = [[0, 0, 3, 2::real]]\<rparr> ! r)
                        (rows \<lparr>ncols = 2, rows = [[1, 1::real]]\<rparr> ! r) d c)"
    unfolding ex_frame_def by blast
  have "written_weight 1 y [0, 0, 3, 2] ws 1 0 = NaN" for y ws
    by (rule written_weight_NaN [of 0]) simp_all
  then have "rows rec ! 0 ! 6 = Some NaN"
    using c [rule_format, OF b(1) b(2) b(1)] by simp
  then show ?thesis using r by simp
qed

text \<open>
  Claim C1. The claim gives the weight written for component \<open>c\<close> of dimension \<open>d\<close> as
  the marginal weight times the exponential of the exclusion likelihood of \<open>c\<close>,
  normalised over the components, where the exclusion likelihood uses the mean and the
  standard deviation of component \<open>c\<close>. The code fills \<^verbatim>\<open>l_probs[:, j, i]\<close> from
  \<^verbatim>\<open>mus[:, i]\<close> and \<^verbatim>\<open>sigmas[:, i]\<close> whatever \<open>j\<close> is, so every component gets
  the same exclusion likelihood and the written weight is the marginal weight divided
  by the sum of the marginal weights. For the regressor \<open>ex_two\<close>, whose components
  differ in the first dimension, the code writes one half for component 0 of
  dimension 1 (column 10 of the record), and the formula of the claim gives more than
  one half.
\<close>

theorem conditional_weight_formula_fails:
  "\<exists>rec. predict_submission ex_self ex_two ex_frame = Inr rec \<and>
     rows rec ! 0 ! 10 = Some (Fin (1 / 2)) \<and>
     1 / 2 < spec_conditional_weight 2 [1/2, 1/2, 1/2, 1/2] [0, 1, 1, 1, 0, 1, 0, 1] [0, 0] 0 1"
proof -
  have h4: "ex_two (NdArray \<lparr>ncols = 1, rows = [[5]]\<rparr>) =
      (\<lparr>ncols = 4, rows = [[1/2, 1/2, 1/2, 1/2]]\<rparr>, \<lparr>ncols = 4, rows = [[0, 0, 0, 0]]\<rparr>,
       \<lparr>ncols = 8, rows = [[0, 1, 1, 1, 0, 1, 0, 1]]\<rparr>)"
    by (simp add: ex_two_def)
  have h5: "well_formed 1 (length (target_column_name ex_self)) 2
      (\<lparr>ncols = 4, rows = [[1/2, 1/2, 1/2, 1/2]]\<rparr>, \<lparr>ncols = 4, rows = [[0, 0, 0, 0]]\<rparr>,
       \<lparr>ncols = 8, rows = [[0, 1, 1, 1, 0, 1, 0, 1::real]]\<rparr>)"
    by (simp add: well_formed_def rectangular_def len_def ex_self_def)
  have h7: "\<not> ndarray_any \<lparr>ncols = 4, rows = [[0, 0, 0, 0]]\<rparr>" by (simp add: ndarray_any_def)
  have T: "0 < length (target_column_name ex_self)" by (simp add: ex_self_def)
  have md: "2 * length (target_column_name ex_self) \<le> max_dists ex_self"
    by (simp add: ex_self_def)
  have b: "(0::nat) < 1" "(1::nat) < length (target_column_name ex_self)" "(0::nat) < 2"
    by (simp_all add: ex_self_def)
  from predict_submission_gaussian [where regressors = ex_two,
      OF T ex_gaussian_facts(2) h4 h5 md h7 b(1) ex_gaussian_facts(3)]
  obtain rec where r: "predict_submission ex_self ex_two ex_frame = Inr rec"
    and c: "\<forall>r<1. \<forall>d<length (target_column_name ex_self). \<forall>c<2.
              rows rec ! r ! (d * (4 * 2 + 1) + 1 + c) =
                Some (written_weight 2
                        (rows (df_values \<lparr>df_len = 1,
                                 df_columns = [(''y_a'', [0]), (''y_b'', [0])]\<rparr>) ! r)
                        (rows \<lparr>ncols = 8, rows = [[0, 1, 1, 1, 0, 1, 0, 1::real]]\<rparr> ! r)
                        (rows \<lparr>ncols = 4, rows = [[1/2, 1/2, 1/2, 1/2::real]]\<rparr> ! r) d c)"
    unfolding ex_frame_def by blast
  have s2: "(\<Sum>j<2. [1/2, 1/2, 1/2, 1/2::real] ! j) = 1"
    by (simp add: numeral_2_eq_2)
  have L: "log_density_sum [0, 0] [0, 1, 1, 1, 0, 1, 0, 1] (Suc 0) = Fin (- ln (sqrt (2 * pi)))"
    by (rule log_density_sum_at_mean) simp_all
  have nonneg: "\<forall>j<2. 0 \<le> [1/2, 1/2, 1/2, 1/2::real] ! j"
    by (simp add: less_Suc_eq numeral_2_eq_2)
  have "written_weight 2 [0, 0] [0, 1, 1, 1, 0, 1, 0, 1] [1/2, 1/2, 1/2, 1/2] (Suc 0) 0 =
      Fin ([1/2, 1/2, 1/2, 1/2] ! 0 / (\<Sum>j<2. [1/2, 1/2, 1/2, 1/2::real] ! j))"
    using float_overflow_large by (intro written_weight_mixture [OF L nonneg]) (simp_all add: s2)
  then have ww: "written_weight 2 [0, 0] [0, 1, 1, 1, 0, 1, 0, 1] [1/2, 1/2, 1/2, 1/2] (Suc 0) 0 =
      Fin (1 / 2)"
    by (simp add: s2)
  have "rows rec ! 0 ! 10 = Some (Fin (1 / 2))"
    using c [rule_format, OF b(1) b(2) b(3)] by (simp add: ex_truth_row ww)
  moreover have "1 / 2 < spec_conditional_weight 2 [1/2, 1/2, 1/2, 1/2]
      [0, 1, 1, 1, 0, 1, 0, 1] [0, 0] 0 1"
    unfolding spec_example_value by (rule spec_example_bound)
  ultimately show ?thesis using r by blast
qed

text \<open>
  Claim C5, as amended. The code has no divisibility check and no ShapeError: the
  number of components per dimension is the floor quotient of the slot count by
  \<open>n_targets\<close>. When the number of type-code columns is not divisible by \<open>n_targets\<close>
  and is at least \<open>n_targets\<close>, the call fails and returns no record; when the checks
  before the packing pass (here: some type code is not zero and the slot count is
  within \<open>max_dists\<close>) the error is the ValueError that numpy raises for a strided
  assignment whose shapes do not fit.
\<close>

theorem indivisible_slot_count_fails:
  assumes "n_targets = length (target_column_name self)" and "0 < n_targets"
    and "extract_truth self X_array = Inr (X, y)"
    and "regressors (NdArray X) = (weights, types, params)"
    and "ncols types mod n_targets \<noteq> 0" and "n_targets \<le> ncols types"
  shows "\<exists>e. predict_submission self regressors X_array = Inl e \<and>
           (ndarray_any types \<and> ncols types \<le> max_dists self \<longrightarrow> e = ValueError)"
proof (cases "ncols types \<le> max_dists self")
  case False
  then have "predict_submission self regressors X_array = Inl AssertionError"
    using assms(3) assms(4) by (simp add: predict_submission_def Let_def)
  then show ?thesis using False by simp
next
  case True
  note T = assms(2) [unfolded assms(1)]
  let ?T = "length (target_column_name self)"
  note u = predict_submission_unfold [where regressors = regressors, OF assms(3) assms(4) True T]
  note pk = pack_record_indivisible [OF T assms(5) [unfolded assms(1)] assms(6) [unfolded assms(1)]]
  show ?thesis
  proof (cases "final_weights ?T (ncols types div ?T) y weights types params")
    case (Inl e)
    then have "predict_submission self regressors X_array = Inl e" using u by simp
    moreover have "\<not> ndarray_any types" using Inl by (auto simp: final_weights_def)
    ultimately show ?thesis by simp
  next
    case (Inr w')
    then have "predict_submission self regressors X_array = Inl ValueError"
      using u pk by simp
    then show ?thesis by simp
  qed
qed

theorem indivisible_slot_count_fails_witness:
  "predict_submission ex_self8 ex_five ex_array = Inl ValueError"
proof -
  have h1: "(2::nat) = length (target_column_name ex_self8)" by (simp add: ex_self8_def)
  have h2: "(0::nat) < 2" by simp
  have h3: "extract_truth ex_self8 ex_array = Inr (\<lparr>ncols = 1, rows = [[5]]\<rparr>, None)"
    by (simp add: extract_truth_NdArray ex_self8_def ex_array_def getitem_upto_def)
  have h4: "ex_five (NdArray \<lparr>ncols = 1, rows = [[5]]\<rparr>) =
      (\<lparr>ncols = 5, rows = [[1, 2, 3, 4, 5]]\<rparr>, \<lparr>ncols = 5, rows = [[1, 0, 0, 0, 0]]\<rparr>,
       \<lparr>ncols = 10, rows = [[1, 2, 3, 4, 5, 6, 7, 8, 9, 10]]\<rparr>)"
    by (simp add: ex_five_def)
  have h5: "ncols \<lparr>ncols = 5, rows = [[1, 0, 0, 0, 0::real]]\<rparr> mod 2 \<noteq> 0" by simp
  have h6: "2 \<le> ncols \<lparr>ncols = 5, rows = [[1, 0, 0, 0, 0::real]]\<rparr>" by simp
  have h7: "ndarray_any \<lparr>ncols = 5, rows = [[1, 0, 0, 0, 0]]\<rparr> \<and>
      ncols \<lparr>ncols = 5, rows = [[1, 0, 0, 0, 0::real]]\<rparr> \<le> max_dists ex_self8"
    by (simp add: ndarray_any_def ex_self8_def)
  from indivisible_slot_count_fails [where regressors = ex_five, OF h1 h2 h3 h4 h5 h6] h7
  show ?thesis by blast
qed

theorem indivisible_slot_count_counterexample:
  "predict_submission ex_self ex_short ex_array =
     Inr \<lparr>ncols = 6,
          rows = [[Some (Fin 0), Some (Fin 7), None, Some (Fin 0), Some (Fin 8), None]]\<rparr>"
proof -
  have h4: "ex_short (NdArray \<lparr>ncols = 1, rows = [[5]]\<rparr>) =
      (\<lparr>ncols = 1, rows = [[1]]\<rparr>, \<lparr>ncols = 1, rows = [[1]]\<rparr>, \<lparr>ncols = 2, rows = [[7, 8]]\<rparr>)"
    by (simp add: ex_short_def)
  have md: "ncols \<lparr>ncols = 1, rows = [[1::real]]\<rparr> \<le> max_dists ex_self"
    by (simp add: ex_self_def)
  have T: "0 < length (target_column_name ex_self)" by (simp add: ex_self_def)
  have any: "ndarray_any \<lparr>ncols = 1, rows = [[1]]\<rparr>" by (simp add: ndarray_any_def)
  have pk: "pack_record 2 1 0 (map_array Fin \<lparr>ncols = 1, rows = [[1::real]]\<rparr>)
      \<lparr>ncols = 1, rows = [[1]]\<rparr> \<lparr>ncols = 2, rows = [[7, 8]]\<rparr> =
     Inr \<lparr>ncols = 6,
          rows = [[Some (Fin 0), Some (Fin 7), None, Some (Fin 0), Some (Fin 8), None]]\<rparr>"
    by code_simp
  have T2: "length (target_column_name ex_self) = 2" by (simp add: ex_self_def)
  show ?thesis
    unfolding predict_submission_unfold [where regressors = ex_short, OF extract_ex_array h4 md T]
      final_weights_other [OF any]
    using pk by (simp only: bindE_Inr T2) simp
qed

text \<open>
  Claim C10, as amended. When \<open>X_array\<close> is a numpy array and every type code returned
  by the regressor is zero, the call never produces a record. It fails with the
  unbound-name error for \<^verbatim>\<open>y\<close> whenever the two checks before the reconstruction
  pass; otherwise the assertion on \<open>max_dists\<close> or the division by \<open>n_targets\<close> fails
  first.
\<close>

theorem ndarray_all_gaussian_fails:
  assumes "regressors (NdArray (getitem_upto a
              (int (ncols a) - int (length (target_column_name self))))) =
            (weights, types, params)"
    and "\<not> ndarray_any types"
  shows "predict_submission self regressors (NdArray a) =
           Inl (if max_dists self < ncols types then AssertionError
                else if length (target_column_name self) = 0 then ZeroDivisionError
                else UnboundLocalError)"
  using assms
  by (simp add: predict_submission_def extract_truth_NdArray Let_def final_weights_def
      normalize_weights_unbound not_le)

theorem ndarray_all_gaussian_fails_witness:
  "predict_submission ex_self ex_gauss ex_array = Inl UnboundLocalError"
proof -
  have h1: "ex_gauss (NdArray (getitem_upto \<lparr>ncols = 3, rows = [[5, 0, 0]]\<rparr>
              (int (ncols \<lparr>ncols = 3, rows = [[5, 0, 0::real]]\<rparr>) -
               int (length (target_column_name ex_self))))) =
      (\<lparr>ncols = 2, rows = [[1, 1]]\<rparr>, \<lparr>ncols = 2, rows = [[0, 0]]\<rparr>,
       \<lparr>ncols = 4, rows = [[0, 1, 3, 2]]\<rparr>)"
    by (simp add: ex_gauss_def)
  have h2: "\<not> ndarray_any \<lparr>ncols = 2, rows = [[0, 0]]\<rparr>" by (simp add: ndarray_any_def)
  from ndarray_all_gaussian_fails [where regressors = ex_gauss, OF h1 h2]
  show ?thesis by (simp add: ex_array_def ex_self_def)
qed

theorem ndarray_all_gaussian_counterexample:
  "predict_submission ex_self ex_wide ex_array = Inl AssertionError"
proof -
  have "\<not> ncols \<lparr>ncols = 6, rows = [[0, 0, 0, 0, 0, 0::real]]\<rparr> \<le> max_dists ex_self"
    by (simp add: ex_self_def)
  then show ?thesis
    by (simp add: predict_submission_def extract_ex_array ex_wide_def Let_def)
qed

text \<open>
  Claim C7, as amended. The sampling step draws one sample per call, not one per input
  row. Whenever \<open>step\<close> returns, for a batch of any number of rows, its result has exactly
  one row, a single joint target vector. For a batch of one row with well-formed shapes,
  valid marginal weights and a valid \<^verbatim>\<open>random_state\<close> it does return, so that it
  yields one vector per input row exactly when the batch has one row.
\<close>

theorem step_returns_single_row:
  "(step self reg ops X_array random_state global_state = Inr (res, g', glob') \<longrightarrow> len res = 1) \<and>
   (0 < length (target_column_name self) \<and> shape0 X_array = 1 \<and>
    reg X_array = (weights, types, params) \<and>
    well_formed 1 (length (target_column_name self)) k (weights, types, params) \<and> 0 < k \<and>
    (\<forall>x\<in>set (take k (rows weights ! 0)). 0 \<le> x) \<and>
    \<bar>sum_list (take k (rows weights ! 0)) - 1\<bar> \<le> 1 / 2 ^ 26 \<and>
    check_random_state ops global_state random_state = Inr g \<and>
    fst (draw_choice ops g k (take k (rows weights ! 0))) < k \<longrightarrow>
    (\<exists>v g2 glob2. step self reg ops X_array random_state global_state =
                     Inr (\<lparr>ncols = length v, rows = [v]\<rparr>, g2, glob2) \<and>
             len \<lparr>ncols = length v, rows = [v]\<rparr> = shape0 X_array))"
proof (intro conjI impI)
  assume ret: "step self reg ops X_array random_state global_state = Inr (res, g', glob')"
  obtain w t p where r: "reg X_array = (w, t, p)"
    by (cases "reg X_array") auto
  from ret have "\<exists>v. res = \<lparr>ncols = length v, rows = [v]\<rparr>"
    unfolding step_def Let_def r prod.case
    by (auto simp: bindE_def split: sum.splits prod.splits)
  then show "len res = 1" by (auto simp: len_def)
next
  assume a: "0 < length (target_column_name self) \<and> shape0 X_array = 1 \<and>
    reg X_array = (weights, types, params) \<and>
    well_formed 1 (length (target_column_name self)) k (weights, types, params) \<and> 0 < k \<and>
    (\<forall>x\<in>set (take k (rows weights ! 0)). 0 \<le> x) \<and>
    \<bar>sum_list (take k (rows weights ! 0)) - 1\<bar> \<le> 1 / 2 ^ 26 \<and>
    check_random_state ops global_state random_state = Inr g \<and>
    fst (draw_choice ops g k (take k (rows weights ! 0))) < k"
  obtain c g1 where ch: "draw_choice ops g k (take k (rows weights ! 0)) = (c, g1)"
    by (cases "draw_choice ops g k (take k (rows weights ! 0))") auto
  obtain v g2 where nr: "draw_multivariate_normal ops g1
        (map (\<lambda>d. rows params ! 0 ! (2 * (d * k + c))) [0..<length (target_column_name self)])
        (diag (map (\<lambda>d. (rows params ! 0 ! (2 * (d * k + c) + 1))\<^sup>2)
                 [0..<length (target_column_name self)])) = (v, g2)"
    by (cases "draw_multivariate_normal ops g1
        (map (\<lambda>d. rows params ! 0 ! (2 * (d * k + c))) [0..<length (target_column_name self)])
        (diag (map (\<lambda>d. (rows params ! 0 ! (2 * (d * k + c) + 1))\<^sup>2)
                 [0..<length (target_column_name self)]))") auto
  have ck: "c < k" using a ch by simp
  from a have a1: "0 < length (target_column_name self)" and a2: "shape0 X_array = 1"
    and a3: "reg X_array = (weights, types, params)"
    and a4: "well_formed 1 (length (target_column_name self)) k (weights, types, params)"
    and a5: "0 < k" and a6: "\<forall>x\<in>set (take k (rows weights ! 0)). 0 \<le> x"
    and a7: "\<bar>sum_list (take k (rows weights ! 0)) - 1\<bar> \<le> 1 / 2 ^ 26"
    and a8: "check_random_state ops global_state random_state = Inr g"
    by blast+
  have "step self reg ops X_array random_state global_state =
      Inr (\<lparr>ncols = length v, rows = [v]\<rparr>, g2,
           case random_state of RS_None \<Rightarrow> g2 | _ \<Rightarrow> global_state)"
    by (rule step_single_row_value [where reg = reg, OF a1 a2 a3 a4 a5 a6 a7 a8 ch ck nr])
  moreover have "len \<lparr>ncols = length v, rows = [v]\<rparr> = shape0 X_array"
    using a2 by (simp add: len_def)
  ultimately show "\<exists>v g2 glob2. step self reg ops X_array random_state global_state =
                     Inr (\<lparr>ncols = length v, rows = [v]\<rparr>, g2, glob2) \<and>
             len \<lparr>ncols = length v, rows = [v]\<rparr> = shape0 X_array"
    by blast
qed

theorem step_returns_single_row_witness:
  "step ex_self1 ex_halves ex_rng ex_batch RS_None 0 = Inr (\<lparr>ncols = 1, rows = [[0]]\<rparr>, 2, 2) \<and>
   shape0 ex_batch = 2 \<and> len \<lparr>ncols = 1, rows = [[0::real]]\<rparr> = 1 \<and>
   shape0 ex_array = 1 \<and>
   (\<exists>v g2 glob2. step ex_self ex_two ex_rng ex_array (RS_Int 1) 0 =
                    Inr (\<lparr>ncols = length v, rows = [v]\<rparr>, g2, glob2) \<and>
            len \<lparr>ncols = length v, rows = [v]\<rparr> = shape0 ex_array)"
proof -
  have s: "step ex_self1 ex_halves ex_rng ex_batch RS_None 0 =
      Inr (\<lparr>ncols = 1, rows = [[0]]\<rparr>, 2, 2)"
    by code_simp
  have two: "shape0 ex_batch = 2" by (simp add: shape0_def ex_batch_def len_def)
  have one: "shape0 ex_array = 1" by (simp add: shape0_def ex_array_def len_def)
  have first: "len \<lparr>ncols = 1, rows = [[0::real]]\<rparr> = 1"
    using step_returns_single_row [where reg = ex_halves and X_array = ex_batch
        and self = ex_self1 and ops = ex_rng and random_state = RS_None and global_state = 0
        and res = "\<lparr>ncols = 1, rows = [[0]]\<rparr>" and g' = 2 and glob' = 2, THEN conjunct1] s
    by simp
  have pre: "0 < length (target_column_name ex_self) \<and> shape0 ex_array = 1 \<and>
    ex_two ex_array = (\<lparr>ncols = 4, rows = [[1/2, 1/2, 1/2, 1/2]]\<rparr>,
       \<lparr>ncols = 4, rows = [[0, 0, 0, 0]]\<rparr>,
       \<lparr>ncols = 8, rows = [[0, 1, 1, 1, 0, 1, 0, 1]]\<rparr>) \<and>
    well_formed 1 (length (target_column_name ex_self)) 2
      (\<lparr>ncols = 4, rows = [[1/2, 1/2, 1/2, 1/2]]\<rparr>, \<lparr>ncols = 4, rows = [[0, 0, 0, 0]]\<rparr>,
       \<lparr>ncols = 8, rows = [[0, 1, 1, 1, 0, 1, 0, 1]]\<rparr>) \<and> (0::nat) < 2 \<and>
    (\<forall>x\<in>set (take 2 (rows \<lparr>ncols = 4, rows = [[1/2, 1/2, 1/2, 1/2::real]]\<rparr> ! 0)). 0 \<le> x) \<and>
    \<bar>sum_list (take 2 (rows \<lparr>ncols = 4, rows = [[1/2, 1/2, 1/2, 1/2::real]]\<rparr> ! 0)) - 1\<bar>
      \<le> 1 / 2 ^ 26 \<and>
    check_random_state ex_rng 0 (RS_Int 1) = Inr 1 \<and>
    fst (draw_choice ex_rng 1 2
           (take 2 (rows \<lparr>ncols = 4, rows = [[1/2, 1/2, 1/2, 1/2::real]]\<rparr> ! 0))) < 2"
    using one
    by (simp add: ex_self_def ex_two_def ex_rng_def well_formed_def rectangular_def len_def
        check_random_state_def)
  from step_returns_single_row [where reg = ex_two and X_array = ex_array
        and self = ex_self and ops = ex_rng and random_state = "RS_Int 1" and global_state = 0,
        THEN conjunct2, rule_format, OF pre]
  have second: "\<exists>v g2 glob2. step ex_self ex_two ex_rng ex_array (RS_Int 1) 0 =
      Inr (\<lparr>ncols = length v, rows = [v]\<rparr>, g2, glob2) \<and>
      len \<lparr>ncols = length v, rows = [v]\<rparr> = shape0 ex_array" .
  show ?thesis using s two one first second by blast
qed

theorem step_batch_counterexample:
  "shape0 ex_batch = 2 \<and> step ex_self1 ex_pair ex_rng ex_batch RS_None 0 = Inl ValueError"
proof -
  have "step ex_self1 ex_pair ex_rng ex_batch RS_None 0 = Inl ValueError" by code_simp
  moreover have "shape0 ex_batch = 2" by (simp add: shape0_def ex_batch_def len_def)
  ultimately show ?thesis by simp
qed





end
